theory Spec2Isabelle
  imports Main "HOL-Library.Word" "HOL-Library.Signed_Division"
begin

unbundle bit_operations_syntax

section \<open>The E20 machine\<close>

text \<open>
  Both programs keep the machine in three C++ objects: \<^verbatim>\<open>uint16_t pc\<close>,
  \<^verbatim>\<open>uint16_t regs_arr[NUM_REGS]\<close> and \<^verbatim>\<open>uint16_t memory_arr[MEM_SIZE]\<close>.
  The arrays are modelled as functions from the index to the cell; every index the
  programs compute is masked or reduced first (lemmas \<open>reg_index_bound\<close>,
  \<open>fetch_index_bound\<close>, \<open>mem_address_bound\<close> below), so no access leaves the arrays.
  \<^verbatim>\<open>uint16_t\<close> is \<open>16 word\<close>: \<open>+\<close> and \<open>-\<close> wrap modulo 65536, which is what
  the C++ conversion back to \<^verbatim>\<open>uint16_t\<close> does to the promoted \<^verbatim>\<open>int\<close> result.
\<close>

definition NUM_REGS :: nat where
  "NUM_REGS = 8"

definition MEM_SIZE :: nat where
  "MEM_SIZE = 2 ^ 13"

record machine =
  pc :: "16 word"
  regs_arr :: "nat \<Rightarrow> 16 word"
  memory_arr :: "nat \<Rightarrow> 16 word"

text \<open>The initialisation loops of \<^verbatim>\<open>main\<close>: every register and every memory cell is 0.\<close>

definition init_regs :: "nat \<Rightarrow> 16 word" where
  "init_regs i = 0"

definition init_memory :: "nat \<Rightarrow> 16 word" where
  "init_memory i = 0"

subsection \<open>Decoding\<close>

definition sign_extend7_func :: "16 word \<Rightarrow> 16 word" where
  "sign_extend7_func imm7 = (if drop_bit 6 imm7 = 1 then imm7 OR 65408 else imm7)"

definition opcode :: "16 word \<Rightarrow> 16 word" where
  "opcode instruction = drop_bit 13 instruction"

definition bits10_12 :: "16 word \<Rightarrow> 16 word" where
  "bits10_12 instruction = drop_bit 10 instruction AND 7"

definition bits7_9 :: "16 word \<Rightarrow> 16 word" where
  "bits7_9 instruction = drop_bit 7 instruction AND 7"

definition bits4_6 :: "16 word \<Rightarrow> 16 word" where
  "bits4_6 instruction = drop_bit 4 instruction AND 7"

definition bits0_3 :: "16 word \<Rightarrow> 16 word" where
  "bits0_3 instruction = instruction AND 15"

text \<open>\<^verbatim>\<open>bits0_6\<close> after the call \<^verbatim>\<open>sign_extend7_func(bits0_6)\<close>, which updates it in place.\<close>

definition bits0_6 :: "16 word \<Rightarrow> 16 word" where
  "bits0_6 instruction = sign_extend7_func (instruction AND 127)"

definition bits0_12 :: "16 word \<Rightarrow> 16 word" where
  "bits0_12 instruction = instruction AND 8191"

text \<open>\<^verbatim>\<open>uint16_t index = pc % MEM_SIZE; uint16_t instruction = memory_arr[index];\<close>\<close>

definition fetch_index :: "machine \<Rightarrow> 16 word" where
  "fetch_index s = word_of_nat (unat (pc s) mod MEM_SIZE)"

definition fetch :: "machine \<Rightarrow> 16 word" where
  "fetch s = memory_arr s (unat (fetch_index s))"

text \<open>
  \<^verbatim>\<open>uint16_t address = (regs_arr[bits10_12] + bits0_6) % MEM_SIZE;\<close> The sum is an
  \<^verbatim>\<open>int\<close> (not yet wrapped to 16 bits) when the remainder is taken.
\<close>

definition mem_address :: "machine \<Rightarrow> 16 word \<Rightarrow> 16 word" where
  "mem_address s instruction =
     word_of_nat ((unat (regs_arr s (unat (bits10_12 instruction))) + unat (bits0_6 instruction)) mod MEM_SIZE)"

subsection \<open>One iteration of the loop of e20\_sim.cpp\<close>

text \<open>
  The body of \<^verbatim>\<open>while (!halt)\<close> in \<^verbatim>\<open>main\<close> of e20\_sim.cpp. The result is the
  value of \<^verbatim>\<open>halt\<close> after the iteration and the machine after it.
\<close>

definition sim_step :: "machine \<Rightarrow> bool \<times> machine" where
  "sim_step s =
    (let instruction = fetch s;
         ra = unat (bits10_12 instruction);
         rb = unat (bits7_9 instruction);
         rc = unat (bits4_6 instruction)
     in
     if opcode instruction = 0 then
       (let s1 =
          (if bits0_3 instruction = 0 then
             s\<lparr>regs_arr := (regs_arr s)(rc := regs_arr s ra + regs_arr s rb), pc := pc s + 1\<rparr>
           else if bits0_3 instruction = 1 then
             s\<lparr>regs_arr := (regs_arr s)(rc := regs_arr s ra - regs_arr s rb), pc := pc s + 1\<rparr>
           else if bits0_3 instruction = 2 then
             s\<lparr>regs_arr := (regs_arr s)(rc := regs_arr s ra OR regs_arr s rb), pc := pc s + 1\<rparr>
           else if bits0_3 instruction = 3 then
             s\<lparr>regs_arr := (regs_arr s)(rc := regs_arr s ra AND regs_arr s rb), pc := pc s + 1\<rparr>
           else if bits0_3 instruction = 4 then
             s\<lparr>regs_arr := (regs_arr s)(rc := (if regs_arr s ra < regs_arr s rb then 1 else 0)),
               pc := pc s + 1\<rparr>
           else if bits0_3 instruction = 8 then
             s\<lparr>pc := regs_arr s ra\<rparr>
           else s)
        in (False, s1\<lparr>regs_arr := (regs_arr s1)(0 := 0)\<rparr>))
     else if opcode instruction = 1 then
       (False, s\<lparr>regs_arr := ((regs_arr s)(rb := regs_arr s ra + bits0_6 instruction))(0 := 0),
                 pc := pc s + 1\<rparr>)
     else if opcode instruction = 2 then
       (pc s = bits0_12 instruction, s\<lparr>pc := bits0_12 instruction\<rparr>)
     else if opcode instruction = 3 then
       (False, s\<lparr>regs_arr := (regs_arr s)(7 := pc s + 1), pc := bits0_12 instruction\<rparr>)
     else if opcode instruction = 4 then
       (let address = mem_address s instruction in
        (False, s\<lparr>regs_arr := ((regs_arr s)(rb := memory_arr s (unat address)))(0 := 0),
                  pc := pc s + 1\<rparr>))
     else if opcode instruction = 5 then
       (let address = mem_address s instruction in
        (False, s\<lparr>memory_arr := (memory_arr s)(unat address := regs_arr s rb), pc := pc s + 1\<rparr>))
     else if opcode instruction = 6 then
       (False, if regs_arr s ra = regs_arr s rb then s\<lparr>pc := pc s + 1 + bits0_6 instruction\<rparr>
               else s\<lparr>pc := pc s + 1\<rparr>)
     else if opcode instruction = 7 then
       (False, s\<lparr>regs_arr := ((regs_arr s)(rb := (if regs_arr s ra < bits0_6 instruction then 1 else 0)))(0 := 0),
                 pc := pc s + 1\<rparr>)
     else (False, s))"

text \<open>
  The loop \<^verbatim>\<open>while (!halt)\<close> may run forever; the model counts iterations down from
  a bound and returns \<open>None\<close> when the bound is used up before \<^verbatim>\<open>halt\<close> is set.
\<close>

fun e20_sim :: "nat \<Rightarrow> machine \<Rightarrow> machine option" where
  "e20_sim 0 s = None"
| "e20_sim (Suc fuel) s =
     (case sim_step s of (halt, s') \<Rightarrow> if halt then Some s' else e20_sim fuel s')"

section \<open>The cache model of e20\_sim\_cache.cpp\<close>

text \<open>
  What C++ leaves undefined (a division by zero, an index outside a vector, erasing from
  an empty vector, signed overflow) and what throws (a vector of negative length) is an
  error value of the model. \<open>InvalidCacheConfig\<close> is the one error the program reports
  itself: \<^verbatim>\<open>cerr << "Invalid cache config"\<close>, \<^verbatim>\<open>return 1\<close>.
\<close>

datatype error = DivByZero | IntOverflow | OutOfRange | EraseOutOfRange | BadAlloc | InvalidCacheConfig

definition bind_err :: "error + 'a \<Rightarrow> ('a \<Rightarrow> error + 'b) \<Rightarrow> error + 'b" where
  "bind_err m f = (case m of Inl e \<Rightarrow> Inl e | Inr x \<Rightarrow> f x)"

record Block =
  tag :: "16 word"

record Row =
  blocks_vec :: "Block list"
  associativity :: int

record Level =
  rows_vec :: "Row list"
  blocksize :: int

record Cache =
  levels_vec :: "Level list"

text \<open>\<^verbatim>\<open>uint16_t tag = -1;\<close> the default member initialiser of \<^verbatim>\<open>Block\<close>.\<close>

definition Block_default :: Block where
  "Block_default = \<lparr>tag = - 1\<rparr>"

text \<open>The two output routines; the model records their arguments.\<close>

datatype out_line =
  CacheConfig string int int int int
  | LogEntry string string "16 word" "16 word" int

definition print_cache_config :: "string \<Rightarrow> int \<Rightarrow> int \<Rightarrow> int \<Rightarrow> int \<Rightarrow> out_line" where
  "print_cache_config cache_name sz assoc bsz num_rows = CacheConfig cache_name sz assoc bsz num_rows"

definition print_log_entry :: "string \<Rightarrow> string \<Rightarrow> 16 word \<Rightarrow> 16 word \<Rightarrow> int \<Rightarrow> out_line" where
  "print_log_entry cache_name status pc_arg addr row = LogEntry cache_name status pc_arg addr row"

subsection \<open>Vectors and C++ integer arithmetic\<close>

definition vec_at :: "'a list \<Rightarrow> nat \<Rightarrow> error + 'a" where
  "vec_at xs i = (if i < length xs then Inr (xs ! i) else Inl OutOfRange)"

text \<open>\<^verbatim>\<open>v.erase(v.begin() + i)\<close>\<close>

definition vec_erase :: "'a list \<Rightarrow> nat \<Rightarrow> error + 'a list" where
  "vec_erase xs i = (if i < length xs then Inr (take i xs @ drop (Suc i) xs) else Inl EraseOutOfRange)"

text \<open>
  \<^verbatim>\<open>int\<close> arithmetic of \<^verbatim>\<open>main\<close>: 32 bits, overflow undefined, division truncating
  towards zero.
\<close>

definition int_mul :: "int \<Rightarrow> int \<Rightarrow> error + int" where
  "int_mul a b = (if - (2 ^ 31) \<le> a * b \<and> a * b < 2 ^ 31 then Inr (a * b) else Inl IntOverflow)"

definition int_div :: "int \<Rightarrow> int \<Rightarrow> error + int" where
  "int_div a b =
     (if b = 0 then Inl DivByZero
      else if a = - (2 ^ 31) \<and> b = - 1 then Inl IntOverflow
      else Inr (a sdiv b))"

text \<open>
  \<^verbatim>\<open>uint16_t\<close> arithmetic of \<^verbatim>\<open>cache_func\<close>: the operands are promoted to \<^verbatim>\<open>int\<close>,
  so the product \<^verbatim>\<open>l1assoc * l1blocksize\<close> does not wrap at 16 bits.
\<close>

definition rows_u16 :: "16 word \<Rightarrow> 16 word \<Rightarrow> 16 word \<Rightarrow> error + 16 word" where
  "rows_u16 sz assoc bsz =
     (let p = uint assoc * uint bsz in
      if 2 ^ 31 \<le> p then Inl IntOverflow
      else if p = 0 then Inl DivByZero
      else Inr (word_of_int (uint sz div p)))"

definition div_u16 :: "16 word \<Rightarrow> 16 word \<Rightarrow> error + 16 word" where
  "div_u16 a b = (if b = 0 then Inl DivByZero else Inr (a div b))"

definition mod_u16 :: "16 word \<Rightarrow> 16 word \<Rightarrow> error + 16 word" where
  "mod_u16 a b = (if b = 0 then Inl DivByZero else Inr (a mod b))"

subsection \<open>cache\_func\<close>

text \<open>The row numbers and tags \<^verbatim>\<open>cache_func\<close> computes before it touches the cache.\<close>

record geometry =
  l1row_num :: "16 word"
  l1tag :: "16 word"
  l2row_num :: "16 word"
  l2tag :: "16 word"

definition cache_geometry :: "16 word \<Rightarrow> int list \<Rightarrow> error + geometry" where
  "cache_geometry address parts =
    (if length parts = 3 then
       (let l1size = word_of_int (parts ! 0);
            l1assoc = word_of_int (parts ! 1);
            l1blocksize = word_of_int (parts ! 2)
        in
        bind_err (rows_u16 l1size l1assoc l1blocksize) (\<lambda>l1rows.
        bind_err (div_u16 address l1blocksize) (\<lambda>l1blockid.
        bind_err (mod_u16 l1blockid l1rows) (\<lambda>l1row.
        bind_err (div_u16 l1blockid l1rows) (\<lambda>l1t.
        Inr \<lparr>l1row_num = l1row, l1tag = l1t, l2row_num = 0, l2tag = 0\<rparr>)))))
     else if length parts = 6 then
       (let l1size = word_of_int (parts ! 0);
            l1assoc = word_of_int (parts ! 1);
            l1blocksize = word_of_int (parts ! 2);
            l2size = word_of_int (parts ! 3);
            l2assoc = word_of_int (parts ! 4);
            l2blocksize = word_of_int (parts ! 5)
        in
        bind_err (rows_u16 l1size l1assoc l1blocksize) (\<lambda>l1rows.
        bind_err (rows_u16 l2size l2assoc l2blocksize) (\<lambda>l2rows.
        bind_err (div_u16 address l1blocksize) (\<lambda>l1blockid.
        bind_err (div_u16 address l2blocksize) (\<lambda>l2blockid.
        bind_err (mod_u16 l1blockid l1rows) (\<lambda>l1row.
        bind_err (mod_u16 l2blockid l2rows) (\<lambda>l2row.
        bind_err (div_u16 l1blockid l1rows) (\<lambda>l1t.
        bind_err (div_u16 l2blockid l2rows) (\<lambda>l2t.
        Inr \<lparr>l1row_num = l1row, l1tag = l1t, l2row_num = l2row, l2tag = l2t\<rparr>)))))))))
     else Inr \<lparr>l1row_num = 0, l1tag = 0, l2row_num = 0, l2tag = 0\<rparr>)"

text \<open>
  The scan \<^verbatim>\<open>for (size_t i = 0; i < blocks_vec.size(); i++) if (blocks_vec[i].tag == t) {...; break;}\<close>
  from index \<open>i\<close> on: the index of the first block carrying the tag, if any.
\<close>

function scan_blocks :: "Block list \<Rightarrow> 16 word \<Rightarrow> nat \<Rightarrow> nat option" where
  "scan_blocks blocks t i =
     (if i < length blocks then
        (if tag (blocks ! i) = t then Some i else scan_blocks blocks t (Suc i))
      else None)"
  by pat_completeness auto
termination
  by (relation "measure (\<lambda>(blocks, t, i). length blocks - i)") auto

declare scan_blocks.simps [simp del]

definition cache_func ::
  "16 word \<Rightarrow> 16 word \<Rightarrow> Cache \<Rightarrow> int list \<Rightarrow> bool \<Rightarrow> error + (Cache \<times> out_line list)" where
  "cache_func address index a_cache parts is_store_word =
    bind_err (cache_geometry address parts) (\<lambda>g.
    bind_err (vec_at (levels_vec a_cache) 0) (\<lambda>level1.
    bind_err (vec_at (rows_vec level1) (unat (l1row_num g))) (\<lambda>row1.
    let l1found = scan_blocks (blocks_vec row1) (l1tag g) 0;
        l1tag_was_found = (l1found \<noteq> None);
        log1 = (if is_store_word then print_log_entry ''L1'' ''SW'' index address (uint (l1row_num g))
                else if l1tag_was_found then print_log_entry ''L1'' ''HIT'' index address (uint (l1row_num g))
                else print_log_entry ''L1'' ''MISS'' index address (uint (l1row_num g)))
    in
    bind_err (case l1found of
                Some l1tag_block_index \<Rightarrow> vec_erase (blocks_vec row1) l1tag_block_index
              | None \<Rightarrow> vec_erase (blocks_vec row1) 0) (\<lambda>erased1.
    let row1' = row1\<lparr>blocks_vec := erased1 @ [\<lparr>tag = l1tag g\<rparr>]\<rparr>;
        level1' = level1\<lparr>rows_vec := (rows_vec level1)[unat (l1row_num g) := row1']\<rparr>;
        cache1 = a_cache\<lparr>levels_vec := (levels_vec a_cache)[0 := level1']\<rparr>
    in
    if length (levels_vec cache1) = 2 \<and> (\<not> l1tag_was_found \<or> is_store_word) then
      bind_err (vec_at (levels_vec cache1) 1) (\<lambda>level2.
      bind_err (vec_at (rows_vec level2) (unat (l2row_num g))) (\<lambda>row2.
      let l2found = scan_blocks (blocks_vec row2) (l2tag g) 0;
          l2tag_was_found = (l2found \<noteq> None);
          log2 = (if is_store_word then print_log_entry ''L2'' ''SW'' index address (uint (l2row_num g))
                  else if l2tag_was_found then print_log_entry ''L2'' ''HIT'' index address (uint (l2row_num g))
                  else print_log_entry ''L2'' ''MISS'' index address (uint (l2row_num g)))
      in
      bind_err (case l2found of
                  Some l2tag_block_index \<Rightarrow> vec_erase (blocks_vec row2) l2tag_block_index
                | None \<Rightarrow> vec_erase (blocks_vec row2) 0) (\<lambda>erased2.
      let row2' = row2\<lparr>blocks_vec := erased2 @ [\<lparr>tag = l2tag g\<rparr>]\<rparr>;
          level2' = level2\<lparr>rows_vec := (rows_vec level2)[unat (l2row_num g) := row2']\<rparr>;
          cache2 = cache1\<lparr>levels_vec := (levels_vec cache1)[1 := level2']\<rparr>
      in Inr (cache2, [log1, log2]))))
    else Inr (cache1, [log1])))))"

subsection \<open>One iteration of the loop of run\_e20\_simulator\<close>

text \<open>
  The body of \<^verbatim>\<open>while (!halt)\<close> in \<^verbatim>\<open>run_e20_simulator\<close>: the text of the loop of
  e20\_sim.cpp with a call of \<^verbatim>\<open>cache_func\<close> in \<^verbatim>\<open>lw\<close> and \<^verbatim>\<open>sw\<close>. The result also
  holds the cache after the iteration and the lines the iteration printed.
\<close>

definition cache_step ::
  "machine \<Rightarrow> Cache \<Rightarrow> int list \<Rightarrow> error + (bool \<times> machine \<times> Cache \<times> out_line list)" where
  "cache_step s a_cache parts =
    (let index = fetch_index s;
         instruction = fetch s;
         ra = unat (bits10_12 instruction);
         rb = unat (bits7_9 instruction);
         rc = unat (bits4_6 instruction)
     in
     if opcode instruction = 0 then
       (let s1 =
          (if bits0_3 instruction = 0 then
             s\<lparr>regs_arr := (regs_arr s)(rc := regs_arr s ra + regs_arr s rb), pc := pc s + 1\<rparr>
           else if bits0_3 instruction = 1 then
             s\<lparr>regs_arr := (regs_arr s)(rc := regs_arr s ra - regs_arr s rb), pc := pc s + 1\<rparr>
           else if bits0_3 instruction = 2 then
             s\<lparr>regs_arr := (regs_arr s)(rc := regs_arr s ra OR regs_arr s rb), pc := pc s + 1\<rparr>
           else if bits0_3 instruction = 3 then
             s\<lparr>regs_arr := (regs_arr s)(rc := regs_arr s ra AND regs_arr s rb), pc := pc s + 1\<rparr>
           else if bits0_3 instruction = 4 then
             s\<lparr>regs_arr := (regs_arr s)(rc := (if regs_arr s ra < regs_arr s rb then 1 else 0)),
               pc := pc s + 1\<rparr>
           else if bits0_3 instruction = 8 then
             s\<lparr>pc := regs_arr s ra\<rparr>
           else s)
        in Inr (False, s1\<lparr>regs_arr := (regs_arr s1)(0 := 0)\<rparr>, a_cache, []))
     else if opcode instruction = 1 then
       Inr (False, s\<lparr>regs_arr := ((regs_arr s)(rb := regs_arr s ra + bits0_6 instruction))(0 := 0),
                     pc := pc s + 1\<rparr>, a_cache, [])
     else if opcode instruction = 2 then
       Inr (pc s = bits0_12 instruction, s\<lparr>pc := bits0_12 instruction\<rparr>, a_cache, [])
     else if opcode instruction = 3 then
       Inr (False, s\<lparr>regs_arr := (regs_arr s)(7 := pc s + 1), pc := bits0_12 instruction\<rparr>, a_cache, [])
     else if opcode instruction = 4 then
       (let address = mem_address s instruction in
        bind_err (cache_func address index a_cache parts False) (\<lambda>(cache', out).
        Inr (False, s\<lparr>regs_arr := ((regs_arr s)(rb := memory_arr s (unat address)))(0 := 0),
                      pc := pc s + 1\<rparr>, cache', out)))
     else if opcode instruction = 5 then
       (let address = mem_address s instruction in
        bind_err (cache_func address index a_cache parts True) (\<lambda>(cache', out).
        Inr (False, s\<lparr>memory_arr := (memory_arr s)(unat address := regs_arr s rb), pc := pc s + 1\<rparr>,
             cache', out)))
     else if opcode instruction = 6 then
       Inr (False, (if regs_arr s ra = regs_arr s rb then s\<lparr>pc := pc s + 1 + bits0_6 instruction\<rparr>
                    else s\<lparr>pc := pc s + 1\<rparr>), a_cache, [])
     else if opcode instruction = 7 then
       Inr (False, s\<lparr>regs_arr := ((regs_arr s)(rb := (if regs_arr s ra < bits0_6 instruction then 1 else 0)))(0 := 0),
                     pc := pc s + 1\<rparr>, a_cache, [])
     else Inr (False, s, a_cache, []))"

text \<open>
  \<^verbatim>\<open>run_e20_simulator\<close>, with the same iteration bound as \<open>e20_sim\<close>. \<open>None\<close>: the
  bound is used up; \<open>Some (Inl e)\<close>: a cache query failed; \<open>Some (Inr (s, c, out))\<close>:
  \<^verbatim>\<open>halt\<close> was set, with the final machine, the final cache and everything printed.
\<close>

fun run_e20_simulator ::
  "nat \<Rightarrow> machine \<Rightarrow> Cache \<Rightarrow> int list \<Rightarrow> out_line list \<Rightarrow> (error + (machine \<times> Cache \<times> out_line list)) option" where
  "run_e20_simulator 0 s a_cache parts printed = None"
| "run_e20_simulator (Suc fuel) s a_cache parts printed =
     (case cache_step s a_cache parts of
        Inl e \<Rightarrow> Some (Inl e)
      | Inr (halt, s', cache', out) \<Rightarrow>
          if halt then Some (Inr (s', cache', printed @ out))
          else run_e20_simulator fuel s' cache' parts (printed @ out))"

subsection \<open>Construction of the cache in main\<close>

text \<open>
  The constructor \<^verbatim>\<open>Level(cache_size, num_of_rows, associativity, blocksize)\<close>: one row
  per \<^verbatim>\<open>i < num_of_rows\<close>, each \<^verbatim>\<open>vector<Block>(associativity)\<close>. A negative
  \<^verbatim>\<open>associativity\<close> converts to a huge \<^verbatim>\<open>size_t\<close> and the vector constructor throws.
  Running out of memory for a large cache is not modelled.
\<close>

definition Level_ctor :: "int \<Rightarrow> int \<Rightarrow> int \<Rightarrow> int \<Rightarrow> error + Level" where
  "Level_ctor cache_size num_of_rows assoc bsz =
     (if 0 < num_of_rows \<and> assoc < 0 then Inl BadAlloc
      else Inr \<lparr>rows_vec = replicate (nat num_of_rows)
                   \<lparr>blocks_vec = replicate (nat assoc) Block_default, associativity = assoc\<rparr>,
                blocksize = bsz\<rparr>)"

text \<open>
  The part of \<^verbatim>\<open>main\<close> after \<^verbatim>\<open>/* parse cache config */\<close>: \<open>parts\<close> is the vector of
  the numbers of the \<^verbatim>\<open>--cache\<close> argument, \<open>mem\<close> the memory after
  \<^verbatim>\<open>load_machine_code\<close>.
\<close>

definition main_cache ::
  "nat \<Rightarrow> int list \<Rightarrow> (nat \<Rightarrow> 16 word) \<Rightarrow> (error + (machine \<times> Cache \<times> out_line list)) option" where
  "main_cache fuel parts mem =
    (if length parts = 3 then
       (case bind_err (int_mul (parts ! 1) (parts ! 2)) (\<lambda>p.
             bind_err (int_div (parts ! 0) p) (\<lambda>l1_rows.
             bind_err (Level_ctor (parts ! 0) l1_rows (parts ! 1) (parts ! 2)) (\<lambda>l1.
             Inr (l1_rows, l1)))) of
          Inl e \<Rightarrow> Some (Inl e)
        | Inr (l1_rows, l1) \<Rightarrow>
            run_e20_simulator fuel \<lparr>pc = 0, regs_arr = init_regs, memory_arr = mem\<rparr>
              \<lparr>levels_vec = [l1]\<rparr> parts
              [print_cache_config ''L1'' (parts ! 0) (parts ! 1) (parts ! 2) l1_rows])
     else if length parts = 6 then
       (case bind_err (int_mul (parts ! 1) (parts ! 2)) (\<lambda>p1.
             bind_err (int_div (parts ! 0) p1) (\<lambda>l1_rows.
             bind_err (int_mul (parts ! 4) (parts ! 5)) (\<lambda>p2.
             bind_err (int_div (parts ! 3) p2) (\<lambda>l2_rows.
             bind_err (Level_ctor (parts ! 0) l1_rows (parts ! 1) (parts ! 2)) (\<lambda>l1.
             bind_err (Level_ctor (parts ! 3) l2_rows (parts ! 4) (parts ! 5)) (\<lambda>l2.
             Inr (l1_rows, l2_rows, l1, l2))))))) of
          Inl e \<Rightarrow> Some (Inl e)
        | Inr (l1_rows, l2_rows, l1, l2) \<Rightarrow>
            run_e20_simulator fuel \<lparr>pc = 0, regs_arr = init_regs, memory_arr = mem\<rparr>
              \<lparr>levels_vec = [l1, l2]\<rparr> parts
              [print_cache_config ''L1'' (parts ! 0) (parts ! 1) (parts ! 2) l1_rows,
               print_cache_config ''L2'' (parts ! 3) (parts ! 4) (parts ! 5) l2_rows])
     else Some (Inl InvalidCacheConfig))"

section \<open>Notions the properties are stated with\<close>


text \<open>
  The replacement rule in the words of the specification: if a block with the tag is in
  the row, that block (the first one from the head) is removed and a block with the tag
  is appended at the tail; otherwise the block at the head is removed and a block with the
  tag is appended at the tail.
\<close>

fun remove_first_tag :: "Block list \<Rightarrow> 16 word \<Rightarrow> Block list" where
  "remove_first_tag [] t = []"
| "remove_first_tag (b # bs) t = (if tag b = t then bs else b # remove_first_tag bs t)"

definition lru_rule :: "Block list \<Rightarrow> 16 word \<Rightarrow> Block list" where
  "lru_rule blocks t =
     (if t \<in> set (map tag blocks) then remove_first_tag blocks t @ [\<lparr>tag = t\<rparr>]
      else tl blocks @ [\<lparr>tag = t\<rparr>])"

text \<open>The blocks of row \<open>r\<close> of level \<open>lvl\<close>, and the cache with the rule applied to that row.\<close>

definition row_blocks :: "Cache \<Rightarrow> nat \<Rightarrow> nat \<Rightarrow> Block list" where
  "row_blocks c lvl r = blocks_vec (rows_vec (levels_vec c ! lvl) ! r)"

definition touch_row :: "Cache \<Rightarrow> nat \<Rightarrow> nat \<Rightarrow> 16 word \<Rightarrow> Cache" where
  "touch_row c lvl r t =
     c\<lparr>levels_vec := (levels_vec c)
        [lvl := (levels_vec c ! lvl)
           \<lparr>rows_vec := (rows_vec (levels_vec c ! lvl))
              [r := (rows_vec (levels_vec c ! lvl) ! r)\<lparr>blocks_vec := lru_rule (row_blocks c lvl r) t\<rparr>]\<rparr>]\<rparr>"

definition tag_present :: "Cache \<Rightarrow> nat \<Rightarrow> nat \<Rightarrow> 16 word \<Rightarrow> bool" where
  "tag_present c lvl r t = (t \<in> set (map tag (row_blocks c lvl r)))"

text \<open>The specification's condition for probing L2: a store, or a load that missed in L1.\<close>

definition l2_probed :: "Cache \<Rightarrow> geometry \<Rightarrow> bool \<Rightarrow> bool" where
  "l2_probed c g is_store_word =
     (length (levels_vec c) = 2 \<and> (\<not> tag_present c 0 (unat (l1row_num g)) (l1tag g) \<or> is_store_word))"

definition level_log :: "string \<Rightarrow> bool \<Rightarrow> bool \<Rightarrow> 16 word \<Rightarrow> 16 word \<Rightarrow> 16 word \<Rightarrow> out_line" where
  "level_log name is_store_word found index address r =
     LogEntry name (if is_store_word then ''SW'' else if found then ''HIT'' else ''MISS'') index address (uint r)"

text \<open>The lengths of all rows, and their \<^verbatim>\<open>associativity\<close> members, level by level.\<close>

definition row_lengths :: "Cache \<Rightarrow> nat list list" where
  "row_lengths c = map (\<lambda>lv. map (\<lambda>row. length (blocks_vec row)) (rows_vec lv)) (levels_vec c)"

definition assoc_fields :: "Cache \<Rightarrow> int list list" where
  "assoc_fields c = map (\<lambda>lv. map associativity (rows_vec lv)) (levels_vec c)"

text \<open>A cache none of whose blocks was ever filled: every tag is the initial one.\<close>

definition never_filled :: "Cache \<Rightarrow> bool" where
  "never_filled c =
     list_all (\<lambda>lv. list_all (\<lambda>row. list_all (\<lambda>b. tag b = tag Block_default) (blocks_vec row)) (rows_vec lv))
       (levels_vec c)"

fun log_status :: "out_line \<Rightarrow> string" where
  "log_status (LogEntry name status pc_arg addr row) = status"
| "log_status (CacheConfig name sz assoc bsz num_rows) = []"

text \<open>
  The instruction fetched in \<open>s\<close> is a \<^verbatim>\<open>sw\<close> to the address \<open>a\<close>; and: none of the
  instructions the loop of e20\_sim.cpp executes from \<open>s\<close> on, up to the halt or the
  iteration bound, is a \<^verbatim>\<open>sw\<close> to the address \<open>a\<close>.
\<close>

definition stores_to :: "machine \<Rightarrow> nat \<Rightarrow> bool" where
  "stores_to s a = (opcode (fetch s) = 5 \<and> unat (mem_address s (fetch s)) = a)"

fun no_later_store :: "nat \<Rightarrow> machine \<Rightarrow> nat \<Rightarrow> bool" where
  "no_later_store 0 s a = True"
| "no_later_store (Suc fuel) s a =
     (if stores_to s a then False
      else if fst (sim_step s) then True
      else no_later_store fuel (snd (sim_step s)) a)"

text \<open>
  A level's configuration on which no query can fail: at least one block per row, blocks
  of at least one cell, at least one row, and a size that fits \<^verbatim>\<open>uint16_t\<close>.
\<close>

definition valid_level :: "int \<Rightarrow> int \<Rightarrow> int \<Rightarrow> bool" where
  "valid_level sz assoc bsz = (1 \<le> assoc \<and> 1 \<le> bsz \<and> assoc * bsz \<le> sz \<and> sz \<le> 65535)"

definition valid_config :: "int list \<Rightarrow> bool" where
  "valid_config parts =
     (if length parts = 3 then valid_level (parts ! 0) (parts ! 1) (parts ! 2)
      else if length parts = 6 then
        valid_level (parts ! 0) (parts ! 1) (parts ! 2) \<and> valid_level (parts ! 3) (parts ! 4) (parts ! 5)
      else False)"

text \<open>
  The rows a query with the numbers \<open>g\<close> addresses exist and are not empty, in a cache
  whose rows have the lengths \<open>ls\<close>.
\<close>

definition shape_ok :: "nat list list \<Rightarrow> geometry \<Rightarrow> bool" where
  "shape_ok ls g =
     (ls \<noteq> [] \<and> unat (l1row_num g) < length (ls ! 0) \<and> 0 < ls ! 0 ! unat (l1row_num g) \<and>
      (if length ls = 2 then unat (l2row_num g) < length (ls ! 1) \<and> 0 < ls ! 1 ! unat (l2row_num g)
       else True))"

section \<open>Programs and caches used as examples\<close>


text \<open>
  Caches of two rows of two blocks (\<^verbatim>\<open>--cache 16,2,4\<close> and \<^verbatim>\<open>--cache 16,2,4,16,2,4\<close>)
  whose rows 0 hold the given tags; rows 1 are as constructed.
\<close>

definition demo_row :: "16 word list \<Rightarrow> Row" where
  "demo_row tags = \<lparr>blocks_vec = map (\<lambda>t. \<lparr>tag = t\<rparr>) tags, associativity = 2\<rparr>"

definition demo_level :: "16 word list \<Rightarrow> Level" where
  "demo_level tags = \<lparr>rows_vec = [demo_row tags, demo_row [0xFFFF, 0xFFFF]], blocksize = 4\<rparr>"

definition demo_l1 :: "16 word list \<Rightarrow> Cache" where
  "demo_l1 tags = \<lparr>levels_vec = [demo_level tags]\<rparr>"

definition demo_l1l2 :: "16 word list \<Rightarrow> 16 word list \<Rightarrow> Cache" where
  "demo_l1l2 tags1 tags2 = \<lparr>levels_vec = [demo_level tags1, demo_level tags2]\<rparr>"

text \<open>
  \<^verbatim>\<open>lw $2, 0($0)\<close>, \<^verbatim>\<open>lw $2, 8($0)\<close>, \<^verbatim>\<open>lw $2, 0($0)\<close>, \<^verbatim>\<open>j 3\<close>: loads from the
  addresses 0, 8 and 0, then the halting jump.
\<close>

definition prog_three_loads :: "nat \<Rightarrow> 16 word" where
  "prog_three_loads = init_memory(0 := 0x8100, 1 := 0x8108, 2 := 0x8100, 3 := 0x4003)"


text \<open>
  \<^verbatim>\<open>addi $3, $0, 5\<close>, \<^verbatim>\<open>sw $3, 9($0)\<close>, \<^verbatim>\<open>lw $2, 9($0)\<close>, \<^verbatim>\<open>j 3\<close>: a store to the
  address 9, a load from it, then the halting jump.
\<close>

definition prog_store_load :: "nat \<Rightarrow> 16 word" where
  "prog_store_load = init_memory(0 := 0x2185, 1 := 0xA189, 2 := 0x8109, 3 := 0x4003)"

section \<open>Index bounds\<close>

lemma fetch_index_bound: "unat (fetch_index s) < MEM_SIZE"
  by (simp add: fetch_index_def MEM_SIZE_def unat_of_nat)

lemma mem_address_bound: "unat (mem_address s i) < MEM_SIZE"
  by (simp add: mem_address_def MEM_SIZE_def unat_of_nat)

lemma reg_index_bound:
  "unat (bits10_12 i) < NUM_REGS" "unat (bits7_9 i) < NUM_REGS" "unat (bits4_6 i) < NUM_REGS"
proof -
  have le: "unat (w AND 7) < 8" for w :: "16 word"
  proof -
    have "unat (w AND 7) \<le> unat (7 :: 16 word)"
      by (rule word_and_le1 [THEN word_le_nat_alt [THEN iffD1]])
    then show ?thesis by simp
  qed
  show "unat (bits10_12 i) < NUM_REGS" "unat (bits7_9 i) < NUM_REGS" "unat (bits4_6 i) < NUM_REGS"
    by (simp_all add: bits10_12_def bits7_9_def bits4_6_def NUM_REGS_def le)
qed

section \<open>The two loops execute the same instruction\<close>

lemma bind_err_simps [simp]:
  "bind_err (Inl e) f = Inl e" "bind_err (Inr x) f = f x"
  by (simp_all add: bind_err_def)

lemma bind_err_if: "bind_err (if b then x else y) f = (if b then bind_err x f else bind_err y f)"
  by simp

text \<open>
  An iteration of \<^verbatim>\<open>run_e20_simulator\<close> is the iteration of e20\_sim.cpp, preceded by
  a cache query when the instruction is \<^verbatim>\<open>lw\<close> or \<^verbatim>\<open>sw\<close>.
\<close>

lemma cache_step_alt:
  "cache_step s c parts =
    (if opcode (fetch s) = 4 \<or> opcode (fetch s) = 5 then
       bind_err (cache_func (mem_address s (fetch s)) (fetch_index s) c parts (opcode (fetch s) = 5))
         (\<lambda>(c', out). Inr (fst (sim_step s), snd (sim_step s), c', out))
     else Inr (fst (sim_step s), snd (sim_step s), c, []))"
  by (simp add: cache_step_def sim_step_def Let_def)


lemma cache_step_arch:
  "cache_step s c parts = Inr (h, s', c', out) \<Longrightarrow> sim_step s = (h, s')"
  by (cases "sim_step s")
    (auto simp: cache_step_alt bind_err_def split: if_splits sum.splits prod.splits)

lemma cache_step_total:
  "(\<exists>e. cache_step s c parts = Inl e) \<or>
   (\<exists>c' out. cache_step s c parts = Inr (fst (sim_step s), snd (sim_step s), c', out))"
  by (auto simp: cache_step_alt bind_err_def split: if_splits sum.splits prod.splits)


section \<open>The execution engine\<close>

text \<open>
  C8. An iteration whose instruction has opcode 0 and a selector outside
  \<open>{0, 1, 2, 3, 4, 8}\<close> does not set \<^verbatim>\<open>halt\<close> and returns the machine it started
  from with register 0 set to 0: the program counter, the memory and the registers 1 to 7
  are the same. In \<^verbatim>\<open>run_e20_simulator\<close> the cache is untouched and nothing is printed.
\<close>

theorem undefined_selector_frame:
  assumes "opcode (fetch s) = 0" and "bits0_3 (fetch s) \<notin> {0, 1, 2, 3, 4, 8}"
  shows "sim_step s = (False, s\<lparr>regs_arr := (regs_arr s)(0 := 0)\<rparr>) \<and>
         cache_step s c parts = Inr (False, s\<lparr>regs_arr := (regs_arr s)(0 := 0)\<rparr>, c, [])"
  using assms by (simp add: sim_step_def cache_step_def Let_def)

theorem undefined_selector_frame_witness:
  "sim_step \<lparr>pc = 3, regs_arr = init_regs(0 := 9, 2 := 7), memory_arr = init_memory(3 := 0x0005)\<rparr>
     = (False, \<lparr>pc = 3, regs_arr = init_regs(0 := 0, 2 := 7), memory_arr = init_memory(3 := 0x0005)\<rparr>) \<and>
   cache_step \<lparr>pc = 3, regs_arr = init_regs(0 := 9, 2 := 7), memory_arr = init_memory(3 := 0x0005)\<rparr>
       \<lparr>levels_vec = []\<rparr> [16, 2, 4]
     = Inr (False, \<lparr>pc = 3, regs_arr = init_regs(0 := 0, 2 := 7), memory_arr = init_memory(3 := 0x0005)\<rparr>,
            \<lparr>levels_vec = []\<rparr>, [])"
proof -
  let ?s = "\<lparr>pc = 3, regs_arr = init_regs(0 := 9, 2 := 7), memory_arr = init_memory(3 := 0x0005)\<rparr>"
  have f: "fetch ?s = 5"
    by (simp add: fetch_def fetch_index_def MEM_SIZE_def)
  have "opcode (fetch ?s) = 0" "bits0_3 (fetch ?s) \<notin> {0, 1, 2, 3, 4, 8}"
    by (simp_all add: f opcode_def bits0_3_def)
  from undefined_selector_frame [OF this, of "\<lparr>levels_vec = []\<rparr>" "[16, 2, 4]"]
  show ?thesis by (simp add: fun_upd_twist)
qed



section \<open>Relating the loops\<close>




lemma run_e20_simulator_arch:
  "run_e20_simulator fuel s c parts printed = Some (Inr (s', c', out)) \<Longrightarrow> e20_sim fuel s = Some s'"
proof (induction fuel arbitrary: s c printed)
  case 0
  then show ?case by simp
next
  case (Suc fuel)
  from Suc.prems obtain h s1 c1 o1 where st: "cache_step s c parts = Inr (h, s1, c1, o1)"
    by (auto split: sum.splits)
  then have ss: "sim_step s = (h, s1)" by (rule cache_step_arch)
  show ?case
  proof (cases h)
    case True
    then show ?thesis using Suc.prems st ss by simp
  next
    case False
    then have "run_e20_simulator fuel s1 c1 parts (printed @ o1) = Some (Inr (s', c', out))"
      using Suc.prems st by simp
    then have "e20_sim fuel s1 = Some s'" by (rule Suc.IH)
    then show ?thesis using False ss by simp
  qed
qed

lemma run_e20_simulator_total:
  "e20_sim fuel s = Some s' \<Longrightarrow>
     (\<exists>e. run_e20_simulator fuel s c parts printed = Some (Inl e)) \<or>
     (\<exists>c' out. run_e20_simulator fuel s c parts printed = Some (Inr (s', c', out)))"
proof (induction fuel arbitrary: s c printed)
  case 0
  then show ?case by simp
next
  case (Suc fuel)
  from cache_step_total [of s c parts] show ?case
  proof
    assume "\<exists>e. cache_step s c parts = Inl e"
    then show ?thesis by auto
  next
    assume "\<exists>c' out. cache_step s c parts = Inr (fst (sim_step s), snd (sim_step s), c', out)"
    then obtain c1 o1 where st: "cache_step s c parts = Inr (fst (sim_step s), snd (sim_step s), c1, o1)"
      by blast
    show ?thesis
    proof (cases "fst (sim_step s)")
      case True
      then show ?thesis using Suc.prems st by (simp add: case_prod_beta)
    next
      case False
      then have "e20_sim fuel (snd (sim_step s)) = Some s'"
        using Suc.prems by (simp add: case_prod_beta)
      from Suc.IH [OF this, of c1 "printed @ o1"] show ?thesis using False st by simp
    qed
  qed
qed

section \<open>Register 0\<close>




section \<open>The scan and the replacement of cache\_func\<close>

lemma scan_blocks_None: "scan_blocks blocks t i = None \<longleftrightarrow> t \<notin> tag ` set (drop i blocks)"
proof (induction blocks t i rule: scan_blocks.induct)
  case (1 blocks t i)
  show ?case
  proof (cases "i < length blocks")
    case True
    then have d: "drop i blocks = blocks ! i # drop (Suc i) blocks"
      by (simp add: Cons_nth_drop_Suc)
    show ?thesis
      using True 1 by (subst scan_blocks.simps) (auto simp: d)
  next
    case False
    then show ?thesis by (subst scan_blocks.simps) simp
  qed
qed

lemma scan_blocks_Some:
  "scan_blocks blocks t i = Some k \<Longrightarrow>
     i \<le> k \<and> k < length blocks \<and> tag (blocks ! k) = t \<and> (\<forall>j. i \<le> j \<and> j < k \<longrightarrow> tag (blocks ! j) \<noteq> t)"
proof (induction blocks t i rule: scan_blocks.induct)
  case (1 blocks t i)
  show ?case
  proof (cases "i < length blocks \<and> tag (blocks ! i) \<noteq> t")
    case True
    then have "scan_blocks blocks t (Suc i) = Some k"
      using "1.prems" by (subst (asm) scan_blocks.simps) simp
    then have ih: "Suc i \<le> k \<and> k < length blocks \<and> tag (blocks ! k) = t \<and>
        (\<forall>j. Suc i \<le> j \<and> j < k \<longrightarrow> tag (blocks ! j) \<noteq> t)"
      using "1.IH" True by simp
    have "tag (blocks ! j) \<noteq> t" if "i \<le> j" "j < k" for j
      using that ih True by (cases "j = i") auto
    then show ?thesis using ih by auto
  next
    case False
    then show ?thesis
      using "1.prems" by (subst (asm) scan_blocks.simps) (auto split: if_splits)
  qed
qed

lemma erase_first_match:
  "k < length blocks \<Longrightarrow> tag (blocks ! k) = t \<Longrightarrow> (\<forall>j < k. tag (blocks ! j) \<noteq> t) \<Longrightarrow>
   take k blocks @ drop (Suc k) blocks = remove_first_tag blocks t"
proof (induction blocks arbitrary: k)
  case Nil
  then show ?case by simp
next
  case (Cons b bs)
  show ?case
  proof (cases k)
    case 0
    then show ?thesis using Cons.prems by simp
  next
    case (Suc k')
    have "tag b \<noteq> t" using Cons.prems(3) Suc by auto
    moreover have "\<forall>j < k'. tag (bs ! j) \<noteq> t"
      using Cons.prems(3) Suc by auto
    then have "take k' bs @ drop (Suc k') bs = remove_first_tag bs t"
      using Cons.IH [of k'] Cons.prems(1,2) Suc by simp
    ultimately show ?thesis using Suc by simp
  qed
qed

lemma erase_scan:
  "(case scan_blocks blocks t 0 of Some i \<Rightarrow> vec_erase blocks i | None \<Rightarrow> vec_erase blocks 0) =
   (if blocks = [] then Inl EraseOutOfRange else Inr (butlast (lru_rule blocks t)))"
proof (cases "scan_blocks blocks t 0")
  case None
  then have "t \<notin> set (map tag blocks)" using scan_blocks_None [of blocks t 0] by simp
  then show ?thesis using None by (cases blocks) (simp_all add: vec_erase_def lru_rule_def drop_Suc)
next
  case (Some k)
  from scan_blocks_Some [OF Some]
  have k: "k < length blocks" "tag (blocks ! k) = t" "\<forall>j < k. tag (blocks ! j) \<noteq> t" by auto
  then have "t \<in> set (map tag blocks)" by (metis length_map nth_map nth_mem)
  moreover have "blocks \<noteq> []" using k by auto
  ultimately show ?thesis
    using Some k erase_first_match [of k blocks t] by (simp add: vec_erase_def lru_rule_def)
qed


lemma lru_rule_snoc: "butlast (lru_rule blocks t) @ [\<lparr>tag = t\<rparr>] = lru_rule blocks t"
  by (simp add: lru_rule_def)

lemma scan_found_iff:
  "scan_blocks blocks t 0 = None \<longleftrightarrow> t \<notin> set (map tag blocks)"
  "(\<exists>y. scan_blocks blocks t 0 = Some y) \<longleftrightarrow> t \<in> set (map tag blocks)"
  using scan_blocks_None [of blocks t 0] by auto

lemma cache_func_alt:
  "cache_func address index c parts sw =
    bind_err (cache_geometry address parts) (\<lambda>g.
      if levels_vec c = [] then Inl OutOfRange
      else if \<not> unat (l1row_num g) < length (rows_vec (levels_vec c ! 0)) then Inl OutOfRange
      else if row_blocks c 0 (unat (l1row_num g)) = [] then Inl EraseOutOfRange
      else if l2_probed c g sw then
        (if \<not> unat (l2row_num g) < length (rows_vec (levels_vec c ! 1)) then Inl OutOfRange
         else if row_blocks c 1 (unat (l2row_num g)) = [] then Inl EraseOutOfRange
         else Inr (touch_row (touch_row c 0 (unat (l1row_num g)) (l1tag g)) 1 (unat (l2row_num g)) (l2tag g),
                   [level_log ''L1'' sw (tag_present c 0 (unat (l1row_num g)) (l1tag g)) index address (l1row_num g),
                    level_log ''L2'' sw (tag_present c 1 (unat (l2row_num g)) (l2tag g)) index address (l2row_num g)]))
      else Inr (touch_row c 0 (unat (l1row_num g)) (l1tag g),
                [level_log ''L1'' sw (tag_present c 0 (unat (l1row_num g)) (l1tag g)) index address (l1row_num g)]))"
proof (cases "cache_geometry address parts")
  case (Inl e)
  then show ?thesis by (simp add: cache_func_def)
next
  case (Inr g)
  show ?thesis
    unfolding cache_func_def Inr
    by (simp add: vec_at_def Let_def erase_scan bind_err_if lru_rule_snoc scan_found_iff
        row_blocks_def touch_row_def tag_present_def l2_probed_def level_log_def print_log_entry_def
        del: set_map)
qed

lemma remove_first_tag_length:
  "t \<in> set (map tag blocks) \<Longrightarrow> Suc (length (remove_first_tag blocks t)) = length blocks"
  by (induction blocks) auto

lemma lru_rule_length: "blocks \<noteq> [] \<Longrightarrow> length (lru_rule blocks t) = length blocks"
  using remove_first_tag_length [of t blocks] by (auto simp: lru_rule_def simp del: set_map)

lemma levels_touch_row [simp]: "length (levels_vec (touch_row c lvl r t)) = length (levels_vec c)"
  by (simp add: touch_row_def)

lemma row_blocks_touch_same:
  "lvl < length (levels_vec c) \<Longrightarrow> r < length (rows_vec (levels_vec c ! lvl)) \<Longrightarrow>
   row_blocks (touch_row c lvl r t) lvl r = lru_rule (row_blocks c lvl r) t"
  by (simp add: touch_row_def row_blocks_def)

lemma level_touch_other:
  "lvl' \<noteq> lvl \<Longrightarrow> levels_vec (touch_row c lvl r t) ! lvl' = levels_vec c ! lvl'"
  by (simp add: touch_row_def)

lemma row_blocks_touch_other_level:
  "lvl' \<noteq> lvl \<Longrightarrow> row_blocks (touch_row c lvl r t) lvl' r' = row_blocks c lvl' r'"
  by (simp add: row_blocks_def level_touch_other)

lemma map_update_same: "f x = f (xs ! i) \<Longrightarrow> map f (xs[i := x]) = map f xs"
proof (cases "i < length xs")
  case True
  assume "f x = f (xs ! i)"
  then have "(map f xs)[i := f x] = (map f xs)[i := map f xs ! i]" using True by simp
  then show ?thesis by (simp add: map_update)
next
  case False
  then have "xs[i := x] = xs" by (simp add: list_update_beyond)
  then show ?thesis by simp
qed

lemma row_lengths_touch:
  "row_blocks c lvl r \<noteq> [] \<Longrightarrow> row_lengths (touch_row c lvl r t) = row_lengths c"
  unfolding row_lengths_def touch_row_def
  by (simp add: map_update_same lru_rule_length row_blocks_def)

lemma assoc_fields_touch: "assoc_fields (touch_row c lvl r t) = assoc_fields c"
  unfolding assoc_fields_def touch_row_def
  by (simp add: map_update_same)

text \<open>What a successful query has done, in the words of the specification.\<close>

lemma cache_func_InrD:
  assumes "cache_func address index c parts sw = Inr (c', out)"
  shows "\<exists>g. cache_geometry address parts = Inr g \<and> levels_vec c \<noteq> [] \<and>
           unat (l1row_num g) < length (rows_vec (levels_vec c ! 0)) \<and>
           row_blocks c 0 (unat (l1row_num g)) \<noteq> [] \<and>
           (if l2_probed c g sw
            then unat (l2row_num g) < length (rows_vec (levels_vec c ! 1)) \<and>
                 row_blocks c 1 (unat (l2row_num g)) \<noteq> [] \<and>
                 c' = touch_row (touch_row c 0 (unat (l1row_num g)) (l1tag g)) 1 (unat (l2row_num g)) (l2tag g) \<and>
                 out = [level_log ''L1'' sw (tag_present c 0 (unat (l1row_num g)) (l1tag g)) index address (l1row_num g),
                        level_log ''L2'' sw (tag_present c 1 (unat (l2row_num g)) (l2tag g)) index address (l2row_num g)]
            else c' = touch_row c 0 (unat (l1row_num g)) (l1tag g) \<and>
                 out = [level_log ''L1'' sw (tag_present c 0 (unat (l1row_num g)) (l1tag g)) index address (l1row_num g)])"
proof (cases "cache_geometry address parts")
  case (Inl e)
  then show ?thesis using assms by (simp add: cache_func_alt)
next
  case (Inr g)
  show ?thesis
    using assms unfolding cache_func_alt Inr
    by (simp split: if_splits)
qed

section \<open>Replacement\<close>


lemma cache_func_rows:
  assumes "cache_func address index c parts sw = Inr (c', out)"
  shows "\<exists>g. cache_geometry address parts = Inr g \<and>
           row_blocks c' 0 (unat (l1row_num g)) = lru_rule (row_blocks c 0 (unat (l1row_num g))) (l1tag g) \<and>
           (l2_probed c g sw \<longrightarrow>
              row_blocks c' 1 (unat (l2row_num g)) = lru_rule (row_blocks c 1 (unat (l2row_num g))) (l2tag g))"
proof -
  from cache_func_InrD [OF assms] obtain g where g: "cache_geometry address parts = Inr g"
    and l: "levels_vec c \<noteq> []" and r1: "unat (l1row_num g) < length (rows_vec (levels_vec c ! 0))"
    and rest: "if l2_probed c g sw
            then unat (l2row_num g) < length (rows_vec (levels_vec c ! 1)) \<and>
                 row_blocks c 1 (unat (l2row_num g)) \<noteq> [] \<and>
                 c' = touch_row (touch_row c 0 (unat (l1row_num g)) (l1tag g)) 1 (unat (l2row_num g)) (l2tag g) \<and>
                 out = [level_log ''L1'' sw (tag_present c 0 (unat (l1row_num g)) (l1tag g)) index address (l1row_num g),
                        level_log ''L2'' sw (tag_present c 1 (unat (l2row_num g)) (l2tag g)) index address (l2row_num g)]
            else c' = touch_row c 0 (unat (l1row_num g)) (l1tag g) \<and>
                 out = [level_log ''L1'' sw (tag_present c 0 (unat (l1row_num g)) (l1tag g)) index address (l1row_num g)]"
    by blast
  have t1: "row_blocks (touch_row c 0 (unat (l1row_num g)) (l1tag g)) 0 (unat (l1row_num g)) =
      lru_rule (row_blocks c 0 (unat (l1row_num g))) (l1tag g)"
    using l r1 by (simp add: row_blocks_touch_same)
  show ?thesis
  proof (cases "l2_probed c g sw")
    case False
    then show ?thesis using g rest t1 by auto
  next
    case True
    let ?c1 = "touch_row c 0 (unat (l1row_num g)) (l1tag g)"
    have len: "length (levels_vec c) = 2" using True by (simp add: l2_probed_def)
    have c': "c' = touch_row ?c1 1 (unat (l2row_num g)) (l2tag g)"
      and r2: "unat (l2row_num g) < length (rows_vec (levels_vec c ! 1))"
      using rest True by auto
    have "row_blocks c' 0 (unat (l1row_num g)) = row_blocks ?c1 0 (unat (l1row_num g))"
      unfolding c' by (simp add: row_blocks_touch_other_level)
    moreover have "row_blocks c' 1 (unat (l2row_num g)) =
        lru_rule (row_blocks ?c1 1 (unat (l2row_num g))) (l2tag g)"
      unfolding c' using len r2 by (simp add: row_blocks_touch_same level_touch_other)
    ultimately show ?thesis using g t1 by (auto simp: row_blocks_touch_other_level)
  qed
qed



section \<open>Propagation to L2\<close>

text \<open>
  C4. With two levels, a successful query prints an L1 line and an L2 line and applies
  the rule to the L2 row exactly when it is a store or its tag is absent from the L1 row
  (a load that misses); otherwise (a load that hits in L1) it prints the single line
  \<open>L1 HIT\<close> and level 2 of the cache is the same as before. A store prints one \<open>SW\<close>
  line per level of a cache of one or two levels.
\<close>

theorem l2_probe_condition:
  "(cache_func address index c parts sw = Inr (c', out) \<and> length (levels_vec c) = 2 \<longrightarrow>
      (\<exists>g. cache_geometry address parts = Inr g \<and>
         (if sw \<or> \<not> tag_present c 0 (unat (l1row_num g)) (l1tag g)
          then out = [level_log ''L1'' sw (tag_present c 0 (unat (l1row_num g)) (l1tag g)) index address (l1row_num g),
                      level_log ''L2'' sw (tag_present c 1 (unat (l2row_num g)) (l2tag g)) index address (l2row_num g)] \<and>
               row_blocks c' 1 (unat (l2row_num g)) = lru_rule (row_blocks c 1 (unat (l2row_num g))) (l2tag g)
          else out = [LogEntry ''L1'' ''HIT'' index address (uint (l1row_num g))] \<and>
               levels_vec c' ! 1 = levels_vec c ! 1))) \<and>
   (cache_func address index c parts True = Inr (c'', out') \<and> length (levels_vec c) \<le> 2 \<longrightarrow>
      length out' = length (levels_vec c) \<and> map log_status out' = replicate (length (levels_vec c)) ''SW'')"
proof (intro conjI impI)
  assume h: "cache_func address index c parts sw = Inr (c', out) \<and> length (levels_vec c) = 2"
  from cache_func_InrD [of address index c parts sw c' out] h
  obtain g where g: "cache_geometry address parts = Inr g"
    and rest: "if l2_probed c g sw
            then unat (l2row_num g) < length (rows_vec (levels_vec c ! 1)) \<and>
                 row_blocks c 1 (unat (l2row_num g)) \<noteq> [] \<and>
                 c' = touch_row (touch_row c 0 (unat (l1row_num g)) (l1tag g)) 1 (unat (l2row_num g)) (l2tag g) \<and>
                 out = [level_log ''L1'' sw (tag_present c 0 (unat (l1row_num g)) (l1tag g)) index address (l1row_num g),
                        level_log ''L2'' sw (tag_present c 1 (unat (l2row_num g)) (l2tag g)) index address (l2row_num g)]
            else c' = touch_row c 0 (unat (l1row_num g)) (l1tag g) \<and>
                 out = [level_log ''L1'' sw (tag_present c 0 (unat (l1row_num g)) (l1tag g)) index address (l1row_num g)]"
    by blast
  from cache_func_rows [of address index c parts sw c' out] h g
  have rows: "l2_probed c g sw \<longrightarrow>
      row_blocks c' 1 (unat (l2row_num g)) = lru_rule (row_blocks c 1 (unat (l2row_num g))) (l2tag g)"
    by auto
  have p: "l2_probed c g sw \<longleftrightarrow> sw \<or> \<not> tag_present c 0 (unat (l1row_num g)) (l1tag g)"
    using h by (auto simp: l2_probed_def)
  have "if sw \<or> \<not> tag_present c 0 (unat (l1row_num g)) (l1tag g)
          then out = [level_log ''L1'' sw (tag_present c 0 (unat (l1row_num g)) (l1tag g)) index address (l1row_num g),
                      level_log ''L2'' sw (tag_present c 1 (unat (l2row_num g)) (l2tag g)) index address (l2row_num g)] \<and>
               row_blocks c' 1 (unat (l2row_num g)) = lru_rule (row_blocks c 1 (unat (l2row_num g))) (l2tag g)
          else out = [LogEntry ''L1'' ''HIT'' index address (uint (l1row_num g))] \<and>
               levels_vec c' ! 1 = levels_vec c ! 1"
  proof (cases "sw \<or> \<not> tag_present c 0 (unat (l1row_num g)) (l1tag g)")
    case True
    then show ?thesis using rest rows p by simp
  next
    case False
    then have "c' = touch_row c 0 (unat (l1row_num g)) (l1tag g)"
      and "out = [level_log ''L1'' sw (tag_present c 0 (unat (l1row_num g)) (l1tag g)) index address (l1row_num g)]"
      using rest p by auto
    then show ?thesis using False by (simp add: level_log_def level_touch_other)
  qed
  with g show "\<exists>g. cache_geometry address parts = Inr g \<and>
         (if sw \<or> \<not> tag_present c 0 (unat (l1row_num g)) (l1tag g)
          then out = [level_log ''L1'' sw (tag_present c 0 (unat (l1row_num g)) (l1tag g)) index address (l1row_num g),
                      level_log ''L2'' sw (tag_present c 1 (unat (l2row_num g)) (l2tag g)) index address (l2row_num g)] \<and>
               row_blocks c' 1 (unat (l2row_num g)) = lru_rule (row_blocks c 1 (unat (l2row_num g))) (l2tag g)
          else out = [LogEntry ''L1'' ''HIT'' index address (uint (l1row_num g))] \<and>
               levels_vec c' ! 1 = levels_vec c ! 1)"
    by blast
next
  assume h: "cache_func address index c parts True = Inr (c'', out') \<and> length (levels_vec c) \<le> 2"
  from cache_func_InrD [of address index c parts True c'' out'] h
  obtain g where l: "levels_vec c \<noteq> []"
    and rest0: "if l2_probed c g True
            then unat (l2row_num g) < length (rows_vec (levels_vec c ! 1)) \<and>
                 row_blocks c 1 (unat (l2row_num g)) \<noteq> [] \<and>
                 c'' = touch_row (touch_row c 0 (unat (l1row_num g)) (l1tag g)) 1 (unat (l2row_num g)) (l2tag g) \<and>
                 out' = [level_log ''L1'' True (tag_present c 0 (unat (l1row_num g)) (l1tag g)) index address (l1row_num g),
                        level_log ''L2'' True (tag_present c 1 (unat (l2row_num g)) (l2tag g)) index address (l2row_num g)]
            else c'' = touch_row c 0 (unat (l1row_num g)) (l1tag g) \<and>
                 out' = [level_log ''L1'' True (tag_present c 0 (unat (l1row_num g)) (l1tag g)) index address (l1row_num g)]"
    by blast
  have rest: "if l2_probed c g True
            then out' = [level_log ''L1'' True (tag_present c 0 (unat (l1row_num g)) (l1tag g)) index address (l1row_num g),
                        level_log ''L2'' True (tag_present c 1 (unat (l2row_num g)) (l2tag g)) index address (l2row_num g)]
            else out' = [level_log ''L1'' True (tag_present c 0 (unat (l1row_num g)) (l1tag g)) index address (l1row_num g)]"
    using rest0 by (simp split: if_splits)
  have "length (levels_vec c) = 1 \<or> length (levels_vec c) = 2"
    using l h by (cases "levels_vec c") (auto simp: le_Suc_eq numeral_2_eq_2)
  then have "length out' = length (levels_vec c) \<and> map log_status out' = replicate (length (levels_vec c)) ''SW''"
    using rest by (auto simp: l2_probed_def level_log_def numeral_2_eq_2)
  then show "length out' = length (levels_vec c)"
    and "map log_status out' = replicate (length (levels_vec c)) ''SW''" by simp_all
qed

theorem l2_probe_condition_witness:
  "cache_func 0 0 (demo_l1l2 [0xFFFF, 0xFFFF] [0xFFFF, 0xFFFF]) [16, 2, 4, 16, 2, 4] False =
     Inr (demo_l1l2 [0xFFFF, 0] [0xFFFF, 0], [LogEntry ''L1'' ''MISS'' 0 0 0, LogEntry ''L2'' ''MISS'' 0 0 0]) \<and>
   cache_func 0 1 (demo_l1l2 [0xFFFF, 0] [0xFFFF, 0]) [16, 2, 4, 16, 2, 4] False =
     Inr (demo_l1l2 [0xFFFF, 0] [0xFFFF, 0], [LogEntry ''L1'' ''HIT'' 1 0 0]) \<and>
   cache_func 8 2 (demo_l1l2 [0xFFFF, 0] [0xFFFF, 0]) [16, 2, 4, 16, 2, 4] True =
     Inr (demo_l1l2 [0, 1] [0, 1], [LogEntry ''L1'' ''SW'' 2 8 0, LogEntry ''L2'' ''SW'' 2 8 0]) \<and>
   length [LogEntry ''L1'' ''SW'' 2 8 0, LogEntry ''L2'' ''SW'' 2 8 0] =
     length (levels_vec (demo_l1l2 [0xFFFF, 0] [0xFFFF, 0])) \<and>
   levels_vec (demo_l1l2 [0xFFFF, 0] [0xFFFF, 0]) ! 1 = demo_level [0xFFFF, 0]"
proof -
  let ?p = "[16, 2, 4, 16, 2, 4] :: int list"
  let ?c0 = "demo_l1l2 [0xFFFF, 0xFFFF] [0xFFFF, 0xFFFF]"
  let ?c1 = "demo_l1l2 [0xFFFF, 0] [0xFFFF, 0]"
  let ?c3 = "demo_l1l2 [0, 1] [0, 1]"
  have q1: "cache_func 0 0 ?c0 ?p False =
      Inr (?c1, [LogEntry ''L1'' ''MISS'' 0 0 0, LogEntry ''L2'' ''MISS'' 0 0 0])"
    by code_simp
  have q2: "cache_func 0 1 ?c1 ?p False = Inr (?c1, [LogEntry ''L1'' ''HIT'' 1 0 0])"
    by code_simp
  have q3: "cache_func 8 2 ?c1 ?p True =
      Inr (?c3, [LogEntry ''L1'' ''SW'' 2 8 0, LogEntry ''L2'' ''SW'' 2 8 0])"
    by code_simp
  have len: "length (levels_vec ?c1) = 2" "length (levels_vec ?c1) \<le> 2" "length (levels_vec ?c0) = 2"
    by code_simp+
  note i1 = l2_probe_condition [of 0 0 ?c0 ?p False ?c1
      "[LogEntry ''L1'' ''MISS'' 0 0 0, LogEntry ''L2'' ''MISS'' 0 0 0]" ?c1 "[]"]
  note i2 = l2_probe_condition [of 0 1 ?c1 ?p False ?c1 "[LogEntry ''L1'' ''HIT'' 1 0 0]" ?c1 "[]"]
  note i3 = l2_probe_condition [of 8 2 ?c1 ?p True ?c3
      "[LogEntry ''L1'' ''SW'' 2 8 0, LogEntry ''L2'' ''SW'' 2 8 0]" ?c3
      "[LogEntry ''L1'' ''SW'' 2 8 0, LogEntry ''L2'' ''SW'' 2 8 0]"]
  have lv: "levels_vec ?c1 ! 1 = demo_level [0xFFFF, 0]" by (simp add: demo_l1l2_def)
  show ?thesis using i1 i2 i3 q1 q2 q3 len lv by simp
qed

section \<open>Instructions one by one, and an example run\<close>

lemma sim_step_lw:
  "opcode (fetch s) = 4 \<Longrightarrow>
   sim_step s = (False, s\<lparr>regs_arr := ((regs_arr s)(unat (bits7_9 (fetch s)) :=
                              memory_arr s (unat (mem_address s (fetch s)))))(0 := 0),
                          pc := pc s + 1\<rparr>)"
  by (simp add: sim_step_def Let_def)

lemma sim_step_sw:
  "opcode (fetch s) = 5 \<Longrightarrow>
   sim_step s = (False, s\<lparr>memory_arr := (memory_arr s)(unat (mem_address s (fetch s)) :=
                              regs_arr s (unat (bits7_9 (fetch s)))),
                          pc := pc s + 1\<rparr>)"
  by (simp add: sim_step_def Let_def)

lemma sim_step_j:
  "opcode (fetch s) = 2 \<Longrightarrow>
   sim_step s = (pc s = bits0_12 (fetch s), s\<lparr>pc := bits0_12 (fetch s)\<rparr>)"
  by (simp add: sim_step_def Let_def)

lemma decode_three_loads:
  "opcode 0x8100 = 4" "bits10_12 0x8100 = 0" "bits7_9 0x8100 = 2" "bits0_6 0x8100 = 0"
  "opcode 0x8108 = 4" "bits10_12 0x8108 = 0" "bits7_9 0x8108 = 2" "bits0_6 0x8108 = 8"
  "opcode 0x4003 = 2" "bits0_12 0x4003 = 3"
  by (simp_all add: opcode_def bits10_12_def bits7_9_def bits0_6_def bits0_12_def sign_extend7_func_def)

lemma init_regs_zero_idem: "i \<noteq> 0 \<Longrightarrow> (init_regs(i := v))(0 := 0) = init_regs(i := v)"
  by (auto simp: fun_eq_iff init_regs_def)

lemma three_loads_steps:
  "sim_step \<lparr>pc = 0, regs_arr = init_regs, memory_arr = prog_three_loads\<rparr> =
     (False, \<lparr>pc = 1, regs_arr = init_regs(2 := 0x8100), memory_arr = prog_three_loads\<rparr>)"
  "sim_step \<lparr>pc = 1, regs_arr = init_regs(2 := 0x8100), memory_arr = prog_three_loads\<rparr> =
     (False, \<lparr>pc = 2, regs_arr = init_regs(2 := 0), memory_arr = prog_three_loads\<rparr>)"
  "sim_step \<lparr>pc = 2, regs_arr = init_regs(2 := 0), memory_arr = prog_three_loads\<rparr> =
     (False, \<lparr>pc = 3, regs_arr = init_regs(2 := 0x8100), memory_arr = prog_three_loads\<rparr>)"
  "sim_step \<lparr>pc = 3, regs_arr = init_regs(2 := 0x8100), memory_arr = prog_three_loads\<rparr> =
     (True, \<lparr>pc = 3, regs_arr = init_regs(2 := 0x8100), memory_arr = prog_three_loads\<rparr>)"
  "fetch \<lparr>pc = 0, regs_arr = init_regs, memory_arr = prog_three_loads\<rparr> = 0x8100"
  "fetch \<lparr>pc = 1, regs_arr = init_regs(2 := 0x8100), memory_arr = prog_three_loads\<rparr> = 0x8108"
  "fetch \<lparr>pc = 2, regs_arr = init_regs(2 := 0), memory_arr = prog_three_loads\<rparr> = 0x8100"
  "fetch \<lparr>pc = 3, regs_arr = init_regs(2 := 0x8100), memory_arr = prog_three_loads\<rparr> = 0x4003"
  "mem_address \<lparr>pc = 0, regs_arr = init_regs, memory_arr = prog_three_loads\<rparr> 0x8100 = 0"
  "mem_address \<lparr>pc = 1, regs_arr = init_regs(2 := 0x8100), memory_arr = prog_three_loads\<rparr> 0x8108 = 8"
  "mem_address \<lparr>pc = 2, regs_arr = init_regs(2 := 0), memory_arr = prog_three_loads\<rparr> 0x8100 = 0"
proof -
  let ?s0 = "\<lparr>pc = 0, regs_arr = init_regs, memory_arr = prog_three_loads\<rparr>"
  let ?s1 = "\<lparr>pc = 1, regs_arr = init_regs(2 := 0x8100), memory_arr = prog_three_loads\<rparr>"
  let ?s2 = "\<lparr>pc = 2, regs_arr = init_regs(2 := 0), memory_arr = prog_three_loads\<rparr>"
  let ?s3 = "\<lparr>pc = 3, regs_arr = init_regs(2 := 0x8100), memory_arr = prog_three_loads\<rparr>"
  show f: "fetch ?s0 = 0x8100" "fetch ?s1 = 0x8108" "fetch ?s2 = 0x8100" "fetch ?s3 = 0x4003"
    by (simp_all add: fetch_def fetch_index_def MEM_SIZE_def prog_three_loads_def)
  show a: "mem_address ?s0 0x8100 = 0" "mem_address ?s1 0x8108 = 8" "mem_address ?s2 0x8100 = 0"
    by (simp_all add: mem_address_def decode_three_loads MEM_SIZE_def init_regs_def)
  have m: "prog_three_loads 0 = 0x8100" "prog_three_loads 8 = 0"
    by (simp_all add: prog_three_loads_def init_memory_def)
  have o: "opcode (fetch ?s0) = 4" "opcode (fetch ?s1) = 4" "opcode (fetch ?s2) = 4" "opcode (fetch ?s3) = 2"
    unfolding f by (simp_all add: decode_three_loads)
  show "sim_step ?s0 = (False, ?s1)"
    unfolding sim_step_lw [OF o(1)] f a by (simp add: decode_three_loads m init_regs_zero_idem)
  show "sim_step ?s1 = (False, ?s2)"
    unfolding sim_step_lw [OF o(2)] f a by (simp add: decode_three_loads m init_regs_zero_idem)
  show "sim_step ?s2 = (False, ?s3)"
    unfolding sim_step_lw [OF o(3)] f a by (simp add: decode_three_loads m init_regs_zero_idem)
  show "sim_step ?s3 = (True, ?s3)"
    unfolding sim_step_j [OF o(4)] f by (simp add: decode_three_loads)
qed

lemma fetch_index_three_loads:
  "fetch_index \<lparr>pc = 0, regs_arr = r, memory_arr = m\<rparr> = 0"
  "fetch_index \<lparr>pc = 1, regs_arr = r, memory_arr = m\<rparr> = 1"
  "fetch_index \<lparr>pc = 2, regs_arr = r, memory_arr = m\<rparr> = 2"
  "fetch_index \<lparr>pc = 3, regs_arr = r, memory_arr = m\<rparr> = 3"
  by (simp_all add: fetch_index_def MEM_SIZE_def)

lemma run_three_loads_any_cache:
  assumes q1: "cache_func 0 0 c0 p False = Inr (c1, o1)"
    and q2: "cache_func 8 1 c1 p False = Inr (c2, o2)"
    and q3: "cache_func 0 2 c2 p False = Inr (c3, o3)"
  shows "run_e20_simulator 4 \<lparr>pc = 0, regs_arr = init_regs, memory_arr = prog_three_loads\<rparr> c0 p printed =
     Some (Inr (\<lparr>pc = 3, regs_arr = init_regs(2 := 0x8100), memory_arr = prog_three_loads\<rparr>, c3,
                printed @ o1 @ o2 @ o3))"
proof -
  let ?s0 = "\<lparr>pc = 0, regs_arr = init_regs, memory_arr = prog_three_loads\<rparr>"
  let ?s1 = "\<lparr>pc = 1, regs_arr = init_regs(2 := 0x8100), memory_arr = prog_three_loads\<rparr>"
  let ?s2 = "\<lparr>pc = 2, regs_arr = init_regs(2 := 0), memory_arr = prog_three_loads\<rparr>"
  let ?s3 = "\<lparr>pc = 3, regs_arr = init_regs(2 := 0x8100), memory_arr = prog_three_loads\<rparr>"
  have cs0: "cache_step ?s0 c0 p = Inr (False, ?s1, c1, o1)"
    unfolding cache_step_alt three_loads_steps fetch_index_three_loads
    by (simp add: decode_three_loads q1)
  have cs1: "cache_step ?s1 c1 p = Inr (False, ?s2, c2, o2)"
    unfolding cache_step_alt three_loads_steps fetch_index_three_loads
    by (simp add: decode_three_loads q2)
  have cs2: "cache_step ?s2 c2 p = Inr (False, ?s3, c3, o3)"
    unfolding cache_step_alt three_loads_steps fetch_index_three_loads
    by (simp add: decode_three_loads q3)
  have cs3: "cache_step ?s3 c3 p = Inr (True, ?s3, c3, [])"
    unfolding cache_step_alt three_loads_steps fetch_index_three_loads
    by (simp add: decode_three_loads)
  have four: "(4::nat) = Suc (Suc (Suc (Suc 0)))" by simp
  show ?thesis
    unfolding four by (simp add: cs0 cs1 cs2 cs3)
qed

lemma run_three_loads:
  "run_e20_simulator 4 \<lparr>pc = 0, regs_arr = init_regs, memory_arr = prog_three_loads\<rparr>
      (demo_l1 [0xFFFF, 0xFFFF]) [16, 2, 4] printed =
   Some (Inr (\<lparr>pc = 3, regs_arr = init_regs(2 := 0x8100), memory_arr = prog_three_loads\<rparr>,
              demo_l1 [1, 0],
              printed @ [LogEntry ''L1'' ''MISS'' 0 0 0, LogEntry ''L1'' ''MISS'' 1 8 0,
                         LogEntry ''L1'' ''HIT'' 2 0 0]))"
proof -
  let ?p = "[16, 2, 4] :: int list"
  have q1: "cache_func 0 0 (demo_l1 [0xFFFF, 0xFFFF]) ?p False =
      Inr (demo_l1 [0xFFFF, 0], [LogEntry ''L1'' ''MISS'' 0 0 0])"
    by code_simp
  have q2: "cache_func 8 1 (demo_l1 [0xFFFF, 0]) ?p False =
      Inr (demo_l1 [0, 1], [LogEntry ''L1'' ''MISS'' 1 8 0])"
    by code_simp
  have q3: "cache_func 0 2 (demo_l1 [0, 1]) ?p False =
      Inr (demo_l1 [1, 0], [LogEntry ''L1'' ''HIT'' 2 0 0])"
    by code_simp
  show ?thesis using run_three_loads_any_cache [OF q1 q2 q3, of printed] by simp
qed

lemma e20_sim_three_loads:
  "e20_sim 4 \<lparr>pc = 0, regs_arr = init_regs, memory_arr = prog_three_loads\<rparr> =
     Some \<lparr>pc = 3, regs_arr = init_regs(2 := 0x8100), memory_arr = prog_three_loads\<rparr>"
proof -
  have four: "(4::nat) = Suc (Suc (Suc (Suc 0)))" by simp
  show ?thesis unfolding four by (simp add: three_loads_steps(1-4))
qed

section \<open>Row lengths\<close>

lemma cache_step_query:
  "cache_step s c parts = Inr (h, s', c', out) \<Longrightarrow>
     (if opcode (fetch s) = 4 \<or> opcode (fetch s) = 5
      then cache_func (mem_address s (fetch s)) (fetch_index s) c parts (opcode (fetch s) = 5) = Inr (c', out)
      else c' = c \<and> out = [])"
  by (auto simp: cache_step_alt bind_err_def split: if_splits sum.splits)

lemma cache_func_row_lengths:
  assumes "cache_func address index c parts sw = Inr (c', out)"
  shows "row_lengths c' = row_lengths c" and "assoc_fields c' = assoc_fields c"
proof -
  from cache_func_InrD [OF assms] obtain g where
    n1: "row_blocks c 0 (unat (l1row_num g)) \<noteq> []"
    and rest: "if l2_probed c g sw
            then unat (l2row_num g) < length (rows_vec (levels_vec c ! 1)) \<and>
                 row_blocks c 1 (unat (l2row_num g)) \<noteq> [] \<and>
                 c' = touch_row (touch_row c 0 (unat (l1row_num g)) (l1tag g)) 1 (unat (l2row_num g)) (l2tag g) \<and>
                 out = [level_log ''L1'' sw (tag_present c 0 (unat (l1row_num g)) (l1tag g)) index address (l1row_num g),
                        level_log ''L2'' sw (tag_present c 1 (unat (l2row_num g)) (l2tag g)) index address (l2row_num g)]
            else c' = touch_row c 0 (unat (l1row_num g)) (l1tag g) \<and>
                 out = [level_log ''L1'' sw (tag_present c 0 (unat (l1row_num g)) (l1tag g)) index address (l1row_num g)]"
    by blast
  show "row_lengths c' = row_lengths c"
  proof (cases "l2_probed c g sw")
    case True
    then have c': "c' = touch_row (touch_row c 0 (unat (l1row_num g)) (l1tag g)) 1 (unat (l2row_num g)) (l2tag g)"
      and n2: "row_blocks c 1 (unat (l2row_num g)) \<noteq> []"
      using rest by auto
    have "row_blocks (touch_row c 0 (unat (l1row_num g)) (l1tag g)) 1 (unat (l2row_num g)) \<noteq> []"
      using n2 by (simp add: row_blocks_touch_other_level)
    then show ?thesis unfolding c' using n1 by (simp add: row_lengths_touch)
  next
    case False
    then show ?thesis using rest n1 by (simp add: row_lengths_touch)
  qed
  show "assoc_fields c' = assoc_fields c"
    using rest by (cases "l2_probed c g sw") (simp_all add: assoc_fields_touch)
qed

lemma run_e20_simulator_row_lengths:
  "run_e20_simulator fuel s c parts printed = Some (Inr (s', c', out)) \<Longrightarrow>
     row_lengths c' = row_lengths c \<and> assoc_fields c' = assoc_fields c"
proof (induction fuel arbitrary: s c printed)
  case 0
  then show ?case by simp
next
  case (Suc fuel)
  from Suc.prems obtain h s1 c1 o1 where st: "cache_step s c parts = Inr (h, s1, c1, o1)"
    by (auto split: sum.splits)
  have one: "row_lengths c1 = row_lengths c \<and> assoc_fields c1 = assoc_fields c"
    using cache_step_query [OF st] cache_func_row_lengths
    by (auto split: if_splits)
  show ?case
  proof (cases h)
    case True
    then show ?thesis using Suc.prems st one by simp
  next
    case False
    then have "run_e20_simulator fuel s1 c1 parts (printed @ o1) = Some (Inr (s', c', out))"
      using Suc.prems st by simp
    from Suc.IH [OF this] show ?thesis using one by simp
  qed
qed

lemma lru_rule_butlast:
  "blocks \<noteq> [] \<Longrightarrow> Suc (length (butlast (lru_rule blocks t))) = length blocks"
  using lru_rule_length [of blocks t] by (cases "lru_rule blocks t" rule: rev_cases) auto

text \<open>
  C9. The constructor gives every row exactly \<^verbatim>\<open>associativity\<close> blocks (and that many
  rows as asked). A successful query leaves the length of every row of every level, and
  every \<^verbatim>\<open>associativity\<close> member, as they were: in each probed row it erases one block
  and appends one, for every access kind. So does a whole run of \<^verbatim>\<open>run_e20_simulator\<close>.
\<close>

theorem row_length_invariant:
  "(Level_ctor sz n a b = Inr lv \<longrightarrow>
      length (rows_vec lv) = nat n \<and>
      (\<forall>row \<in> set (rows_vec lv). int (length (blocks_vec row)) = a \<and> associativity row = a)) \<and>
   (cache_func address index c parts sw = Inr (c', out) \<longrightarrow>
      row_lengths c' = row_lengths c \<and> assoc_fields c' = assoc_fields c \<and>
      (\<exists>g. cache_geometry address parts = Inr g \<and>
         (\<exists>ys. row_blocks c' 0 (unat (l1row_num g)) = ys @ [\<lparr>tag = l1tag g\<rparr>] \<and>
               Suc (length ys) = length (row_blocks c 0 (unat (l1row_num g)))) \<and>
         (l2_probed c g sw \<longrightarrow>
            (\<exists>ys. row_blocks c' 1 (unat (l2row_num g)) = ys @ [\<lparr>tag = l2tag g\<rparr>] \<and>
                  Suc (length ys) = length (row_blocks c 1 (unat (l2row_num g))))))) \<and>
   (run_e20_simulator fuel s c parts printed = Some (Inr (s', c2, out2)) \<longrightarrow>
      row_lengths c2 = row_lengths c \<and> assoc_fields c2 = assoc_fields c)"
proof (intro conjI impI)
  assume "Level_ctor sz n a b = Inr lv"
  then have lv: "lv = \<lparr>rows_vec = replicate (nat n)
                   \<lparr>blocks_vec = replicate (nat a) Block_default, associativity = a\<rparr>,
                blocksize = b\<rparr>" and ok: "\<not> (0 < n \<and> a < 0)"
    by (auto simp: Level_ctor_def split: if_splits)
  show "length (rows_vec lv) = nat n" by (simp add: lv)
  show "\<forall>row \<in> set (rows_vec lv). int (length (blocks_vec row)) = a \<and> associativity row = a"
    using ok by (auto simp: lv)
next
  assume q: "cache_func address index c parts sw = Inr (c', out)"
  show "row_lengths c' = row_lengths c" "assoc_fields c' = assoc_fields c"
    using cache_func_row_lengths [OF q] by simp_all
  from cache_func_InrD [OF q] obtain g where g: "cache_geometry address parts = Inr g"
    and n1: "row_blocks c 0 (unat (l1row_num g)) \<noteq> []"
    and rest: "if l2_probed c g sw
            then unat (l2row_num g) < length (rows_vec (levels_vec c ! 1)) \<and>
                 row_blocks c 1 (unat (l2row_num g)) \<noteq> [] \<and>
                 c' = touch_row (touch_row c 0 (unat (l1row_num g)) (l1tag g)) 1 (unat (l2row_num g)) (l2tag g) \<and>
                 out = [level_log ''L1'' sw (tag_present c 0 (unat (l1row_num g)) (l1tag g)) index address (l1row_num g),
                        level_log ''L2'' sw (tag_present c 1 (unat (l2row_num g)) (l2tag g)) index address (l2row_num g)]
            else c' = touch_row c 0 (unat (l1row_num g)) (l1tag g) \<and>
                 out = [level_log ''L1'' sw (tag_present c 0 (unat (l1row_num g)) (l1tag g)) index address (l1row_num g)]"
    by blast
  from cache_func_rows [OF q] g
  have r1: "row_blocks c' 0 (unat (l1row_num g)) = lru_rule (row_blocks c 0 (unat (l1row_num g))) (l1tag g)"
    and r2: "l2_probed c g sw \<longrightarrow>
      row_blocks c' 1 (unat (l2row_num g)) = lru_rule (row_blocks c 1 (unat (l2row_num g))) (l2tag g)"
    by auto
  have e1: "\<exists>ys. row_blocks c' 0 (unat (l1row_num g)) = ys @ [\<lparr>tag = l1tag g\<rparr>] \<and>
               Suc (length ys) = length (row_blocks c 0 (unat (l1row_num g)))"
    unfolding r1 using lru_rule_snoc [of "row_blocks c 0 (unat (l1row_num g))" "l1tag g"]
      lru_rule_butlast [OF n1, of "l1tag g"] by metis
  have e2: "\<exists>ys. row_blocks c' 1 (unat (l2row_num g)) = ys @ [\<lparr>tag = l2tag g\<rparr>] \<and>
               Suc (length ys) = length (row_blocks c 1 (unat (l2row_num g)))" if p: "l2_probed c g sw"
  proof -
    have n2: "row_blocks c 1 (unat (l2row_num g)) \<noteq> []" using rest p by simp
    show ?thesis
      using r2 p lru_rule_snoc [of "row_blocks c 1 (unat (l2row_num g))" "l2tag g"]
        lru_rule_butlast [OF n2, of "l2tag g"] by metis
  qed
  show "\<exists>g. cache_geometry address parts = Inr g \<and>
         (\<exists>ys. row_blocks c' 0 (unat (l1row_num g)) = ys @ [\<lparr>tag = l1tag g\<rparr>] \<and>
               Suc (length ys) = length (row_blocks c 0 (unat (l1row_num g)))) \<and>
         (l2_probed c g sw \<longrightarrow>
            (\<exists>ys. row_blocks c' 1 (unat (l2row_num g)) = ys @ [\<lparr>tag = l2tag g\<rparr>] \<and>
                  Suc (length ys) = length (row_blocks c 1 (unat (l2row_num g)))))"
    using g e1 e2 by blast
next
  assume r: "run_e20_simulator fuel s c parts printed = Some (Inr (s', c2, out2))"
  show "row_lengths c2 = row_lengths c" "assoc_fields c2 = assoc_fields c"
    using run_e20_simulator_row_lengths [OF r] by simp_all
qed

theorem row_length_invariant_witness:
  "Level_ctor 16 2 2 4 = Inr (demo_level [0xFFFF, 0xFFFF]) \<and>
   length (rows_vec (demo_level [0xFFFF, 0xFFFF])) = 2 \<and>
   map (\<lambda>row. int (length (blocks_vec row))) (rows_vec (demo_level [0xFFFF, 0xFFFF])) = [2, 2] \<and>
   cache_func 8 1 (demo_l1l2 [0xFFFF, 0] [0xFFFF, 0]) [16, 2, 4, 16, 2, 4] True =
     Inr (demo_l1l2 [0, 1] [0, 1], [LogEntry ''L1'' ''SW'' 1 8 0, LogEntry ''L2'' ''SW'' 1 8 0]) \<and>
   row_lengths (demo_l1l2 [0, 1] [0, 1]) = [[2, 2], [2, 2]] \<and>
   row_lengths (demo_l1l2 [0xFFFF, 0] [0xFFFF, 0]) = [[2, 2], [2, 2]] \<and>
   run_e20_simulator 4 \<lparr>pc = 0, regs_arr = init_regs, memory_arr = prog_three_loads\<rparr>
      (demo_l1 [0xFFFF, 0xFFFF]) [16, 2, 4] [] =
     Some (Inr (\<lparr>pc = 3, regs_arr = init_regs(2 := 0x8100), memory_arr = prog_three_loads\<rparr>,
                demo_l1 [1, 0],
                [LogEntry ''L1'' ''MISS'' 0 0 0, LogEntry ''L1'' ''MISS'' 1 8 0, LogEntry ''L1'' ''HIT'' 2 0 0])) \<and>
   row_lengths (demo_l1 [1, 0]) = row_lengths (demo_l1 [0xFFFF, 0xFFFF])"
proof -
  let ?p = "[16, 2, 4, 16, 2, 4] :: int list"
  let ?c1 = "demo_l1l2 [0xFFFF, 0] [0xFFFF, 0]"
  let ?c2 = "demo_l1l2 [0, 1] [0, 1]"
  let ?s0 = "\<lparr>pc = 0, regs_arr = init_regs, memory_arr = prog_three_loads\<rparr>"
  let ?s3 = "\<lparr>pc = 3, regs_arr = init_regs(2 := 0x8100), memory_arr = prog_three_loads\<rparr>"
  let ?out = "[LogEntry ''L1'' ''MISS'' 0 0 0, LogEntry ''L1'' ''MISS'' 1 8 0, LogEntry ''L1'' ''HIT'' 2 0 0]"
  have k: "Level_ctor 16 2 2 4 = Inr (demo_level [0xFFFF, 0xFFFF])"
    by code_simp
  have q: "cache_func 8 1 ?c1 ?p True =
      Inr (?c2, [LogEntry ''L1'' ''SW'' 1 8 0, LogEntry ''L2'' ''SW'' 1 8 0])"
    by code_simp
  have l: "row_lengths ?c1 = [[2, 2], [2, 2]]"
    by code_simp
  have r: "run_e20_simulator 4 ?s0 (demo_l1 [0xFFFF, 0xFFFF]) [16, 2, 4] [] =
      Some (Inr (?s3, demo_l1 [1, 0], ?out))"
    using run_three_loads [of "[]"] by simp
  note i1 = row_length_invariant [of 16 2 2 4 "demo_level [0xFFFF, 0xFFFF]" 8 1 ?c1 ?p True ?c2
      "[LogEntry ''L1'' ''SW'' 1 8 0, LogEntry ''L2'' ''SW'' 1 8 0]" 0 ?s0 "[]" ?s0 ?c1 "[]"]
  note i2 = row_length_invariant [of 16 2 2 4 "demo_level [0xFFFF, 0xFFFF]" 8 1 "demo_l1 [0xFFFF, 0xFFFF]"
      "[16, 2, 4]" True ?c2 "[]" 4 ?s0 "[]" ?s3 "demo_l1 [1, 0]" ?out]
  have a: "length (rows_vec (demo_level [0xFFFF, 0xFFFF])) = 2"
      "map (\<lambda>row. int (length (blocks_vec row))) (rows_vec (demo_level [0xFFFF, 0xFFFF])) = [2, 2]"
    using i1 k by (simp_all add: demo_level_def demo_row_def)
  have b: "row_lengths ?c2 = [[2, 2], [2, 2]]"
    using i1 q l by simp
  have c: "row_lengths (demo_l1 [1, 0]) = row_lengths (demo_l1 [0xFFFF, 0xFFFF])"
    using i2 r by simp
  show ?thesis using k q l r a b c by simp
qed

section \<open>The configuration 16,2,4\<close>

lemma main_cache_16_2_4:
  "main_cache fuel [16, 2, 4] mem =
     run_e20_simulator fuel \<lparr>pc = 0, regs_arr = init_regs, memory_arr = mem\<rparr>
       (demo_l1 [0xFFFF, 0xFFFF]) [16, 2, 4] [CacheConfig ''L1'' 16 2 4 2]"
proof -
  have "bind_err (int_mul 2 4) (\<lambda>p. bind_err (int_div 16 p) (\<lambda>l1_rows.
          bind_err (Level_ctor 16 l1_rows 2 4) (\<lambda>l1. Inr (l1_rows, l1)))) =
        Inr (2, demo_level [0xFFFF, 0xFFFF])"
    by code_simp
  then show ?thesis
    by (simp add: main_cache_def demo_l1_def print_cache_config_def)
qed

text \<open>
  C7, as stated, fails in one number: with \<^verbatim>\<open>--cache 16,2,4\<close> the tag of address 8 is
  not 2. The block number is 8 / 4 = 2, the row 2 mod 2 = 0 and the tag 2 / 2 = 1.
\<close>

theorem address_8_tag_is_not_2:
  "map_sum id l1tag (cache_geometry 8 [16, 2, 4]) \<noteq> Inr 2"
  by code_simp

text \<open>
  C7, amended. With \<^verbatim>\<open>--cache 16,2,4\<close> \<^verbatim>\<open>main\<close> derives 2 rows; the addresses 0 and 8
  map to row 0 with the tags 0 and 1; a program that loads from the addresses 0, 8 and 0
  prints \<open>L1 MISS\<close>, \<open>L1 MISS\<close>, \<open>L1 HIT\<close>, all for row 0.
\<close>

theorem scenario_16_2_4:
  "cache_geometry 0 [16, 2, 4] = Inr \<lparr>l1row_num = 0, l1tag = 0, l2row_num = 0, l2tag = 0\<rparr> \<and>
   cache_geometry 8 [16, 2, 4] = Inr \<lparr>l1row_num = 0, l1tag = 1, l2row_num = 0, l2tag = 0\<rparr> \<and>
   main_cache 4 [16, 2, 4] prog_three_loads =
     Some (Inr (\<lparr>pc = 3, regs_arr = init_regs(2 := 0x8100), memory_arr = prog_three_loads\<rparr>,
                demo_l1 [1, 0],
                [CacheConfig ''L1'' 16 2 4 2,
                 LogEntry ''L1'' ''MISS'' 0 0 0, LogEntry ''L1'' ''MISS'' 1 8 0, LogEntry ''L1'' ''HIT'' 2 0 0]))"
proof -
  have g: "cache_geometry 0 [16, 2, 4] = Inr \<lparr>l1row_num = 0, l1tag = 0, l2row_num = 0, l2tag = 0\<rparr>"
      "cache_geometry 8 [16, 2, 4] = Inr \<lparr>l1row_num = 0, l1tag = 1, l2row_num = 0, l2tag = 0\<rparr>"
    by code_simp+
  show ?thesis
    using g by (simp add: main_cache_16_2_4 run_three_loads)
qed

section \<open>Configurations main accepts\<close>








lemma sdiv_nonneg: "0 \<le> a \<Longrightarrow> 0 < b \<Longrightarrow> a sdiv b = a div (b::int)"
  by (simp add: signed_divide_int_def sgn_if)




section \<open>The initial tag\<close>

lemma div_u16_le: "div_u16 a b = Inr q \<Longrightarrow> unat q \<le> unat a"
  by (auto simp: div_u16_def unat_div split: if_splits intro: div_le_dividend)

lemma cache_geometry_tags_le:
  assumes "cache_geometry address parts = Inr g"
  shows "unat (l1tag g) \<le> unat address \<and> unat (l2tag g) \<le> unat address"
proof -
  consider (three) "length parts = 3" | (six) "length parts = 6"
    | (other) "length parts \<noteq> 3" "length parts \<noteq> 6" by blast
  then show ?thesis
  proof cases
    case three
    from assms obtain l1blockid l1rows where
      b: "div_u16 address (word_of_int (parts ! 2)) = Inr l1blockid"
      and t: "div_u16 l1blockid l1rows = Inr (l1tag g)" and z: "l2tag g = 0"
      unfolding cache_geometry_def Let_def using three
      by (auto simp: bind_err_def split: sum.splits)
    from div_u16_le [OF b] div_u16_le [OF t] z show ?thesis by simp
  next
    case six
    from assms obtain l1blockid l1rows l2blockid l2rows where
      b1: "div_u16 address (word_of_int (parts ! 2)) = Inr l1blockid"
      and t1: "div_u16 l1blockid l1rows = Inr (l1tag g)"
      and b2: "div_u16 address (word_of_int (parts ! 5)) = Inr l2blockid"
      and t2: "div_u16 l2blockid l2rows = Inr (l2tag g)"
      unfolding cache_geometry_def Let_def using six
      by (auto simp: bind_err_def split: sum.splits)
    from div_u16_le [OF b1] div_u16_le [OF t1] div_u16_le [OF b2] div_u16_le [OF t2]
    show ?thesis by simp
  next
    case other
    then have "g = \<lparr>l1row_num = 0, l1tag = 0, l2row_num = 0, l2tag = 0\<rparr>"
      using assms by (simp add: cache_geometry_def)
    then show ?thesis by simp
  qed
qed

lemma sentinel_tag: "tag Block_default = 0xFFFF"
  by (simp add: Block_default_def)

lemma never_filled_row:
  assumes "never_filled c" "lvl < length (levels_vec c)" "r < length (rows_vec (levels_vec c ! lvl))"
    "b \<in> set (row_blocks c lvl r)"
  shows "tag b = tag Block_default"
proof -
  have "list_all (\<lambda>row. list_all (\<lambda>b. tag b = tag Block_default) (blocks_vec row)) (rows_vec (levels_vec c ! lvl))"
    using assms(1,2) by (simp add: never_filled_def list_all_length)
  then have "list_all (\<lambda>b. tag b = tag Block_default) (row_blocks c lvl r)"
    using assms(3) by (simp add: list_all_length row_blocks_def)
  then show ?thesis using assms(4) by (simp add: list_all_iff)
qed

lemma never_filled_absent:
  assumes "never_filled c" "lvl < length (levels_vec c)" "r < length (rows_vec (levels_vec c ! lvl))"
    "unat t < 8192"
  shows "\<not> tag_present c lvl r t"
proof
  assume "tag_present c lvl r t"
  then obtain b where "b \<in> set (row_blocks c lvl r)" "tag b = t"
    by (auto simp: tag_present_def)
  then have "t = tag Block_default" using never_filled_row [OF assms(1-3)] by auto
  then have "unat t = 65535" by (simp add: sentinel_tag)
  then show False using assms(4) by simp
qed


lemma fresh_load_misses:
  assumes q: "cache_func address index c parts False = Inr (c', out)"
    and nf: "never_filled c" and a: "unat address < 8192"
  shows "out \<noteq> [] \<and> set (map log_status out) = {''MISS''}"
proof -
  from cache_func_InrD [OF q] obtain g where g: "cache_geometry address parts = Inr g"
    and l: "levels_vec c \<noteq> []" and r1: "unat (l1row_num g) < length (rows_vec (levels_vec c ! 0))"
    and rest: "if l2_probed c g False
            then unat (l2row_num g) < length (rows_vec (levels_vec c ! 1)) \<and>
                 row_blocks c 1 (unat (l2row_num g)) \<noteq> [] \<and>
                 c' = touch_row (touch_row c 0 (unat (l1row_num g)) (l1tag g)) 1 (unat (l2row_num g)) (l2tag g) \<and>
                 out = [level_log ''L1'' False (tag_present c 0 (unat (l1row_num g)) (l1tag g)) index address (l1row_num g),
                        level_log ''L2'' False (tag_present c 1 (unat (l2row_num g)) (l2tag g)) index address (l2row_num g)]
            else c' = touch_row c 0 (unat (l1row_num g)) (l1tag g) \<and>
                 out = [level_log ''L1'' False (tag_present c 0 (unat (l1row_num g)) (l1tag g)) index address (l1row_num g)]"
    by blast
  from cache_geometry_tags_le [OF g] a
  have t: "unat (l1tag g) < 8192" "unat (l2tag g) < 8192" by simp_all
  have m1: "\<not> tag_present c 0 (unat (l1row_num g)) (l1tag g)"
    using never_filled_absent [OF nf _ r1 t(1)] l by simp
  show ?thesis
  proof (cases "l2_probed c g False")
    case True
    then have len: "1 < length (levels_vec c)" by (simp add: l2_probed_def)
    have r2: "unat (l2row_num g) < length (rows_vec (levels_vec c ! 1))" using rest True by simp
    have m2: "\<not> tag_present c 1 (unat (l2row_num g)) (l2tag g)"
      using never_filled_absent [OF nf len r2 t(2)] .
    show ?thesis using rest True m1 m2 by (simp add: level_log_def)
  next
    case False
    then show ?thesis using rest m1 by (simp add: level_log_def)
  qed
qed

text \<open>
  C10. The tag a \<^verbatim>\<open>Block\<close> is constructed with is \<open>0xFFFF\<close>. The address of every
  \<^verbatim>\<open>lw\<close> and \<^verbatim>\<open>sw\<close> is below 8192, and for an address below 8192 the tags
  \<^verbatim>\<open>cache_func\<close> computes are at most 8191: they differ from the initial tag, so the
  block a scan finds is never a block as constructed. On a cache none of whose blocks was
  ever filled, a load that succeeds prints only \<open>MISS\<close> lines.
\<close>

theorem sentinel_never_matches:
  "tag Block_default = 0xFFFF \<and>
   unat (mem_address s i) < 8192 \<and>
   (cache_geometry address parts = Inr g \<and> unat address < 8192 \<longrightarrow>
      l1tag g \<le> 8191 \<and> l2tag g \<le> 8191 \<and>
      l1tag g \<noteq> tag Block_default \<and> l2tag g \<noteq> tag Block_default \<and>
      (scan_blocks blocks (l1tag g) 0 = Some k \<longrightarrow> blocks ! k \<noteq> Block_default) \<and>
      (scan_blocks blocks (l2tag g) 0 = Some k \<longrightarrow> blocks ! k \<noteq> Block_default)) \<and>
   (cache_step s c parts = Inr (h, s', c', out) \<and> never_filled c \<and> opcode (fetch s) = 4 \<longrightarrow>
      out \<noteq> [] \<and> set (map log_status out) = {''MISS''})"
proof (intro conjI impI)
  show "tag Block_default = 0xFFFF" by (rule sentinel_tag)
  show "unat (mem_address s i) < 8192" using mem_address_bound [of s i] by (simp add: MEM_SIZE_def)
next
  assume h: "cache_geometry address parts = Inr g \<and> unat address < 8192"
  from cache_geometry_tags_le [of address parts g] h
  have t: "unat (l1tag g) < 8192" "unat (l2tag g) < 8192" by simp_all
  show le1: "l1tag g \<le> 8191" using t(1) by (simp add: word_le_nat_alt)
  show le2: "l2tag g \<le> 8191" using t(2) by (simp add: word_le_nat_alt)
  show n1: "l1tag g \<noteq> tag Block_default" using t(1) by (auto simp: sentinel_tag)
  show n2: "l2tag g \<noteq> tag Block_default" using t(2) by (auto simp: sentinel_tag)
  show "blocks ! k \<noteq> Block_default" if "scan_blocks blocks (l1tag g) 0 = Some k"
    using scan_blocks_Some [OF that] n1 by auto
  show "blocks ! k \<noteq> Block_default" if "scan_blocks blocks (l2tag g) 0 = Some k"
    using scan_blocks_Some [OF that] n2 by auto
next
  assume h: "cache_step s c parts = Inr (h, s', c', out) \<and> never_filled c \<and> opcode (fetch s) = 4"
  then have q: "cache_func (mem_address s (fetch s)) (fetch_index s) c parts False = Inr (c', out)"
    using cache_step_query [of s c parts h s' c' out] by simp
  have a: "unat (mem_address s (fetch s)) < 8192"
    using mem_address_bound [of s "fetch s"] by (simp add: MEM_SIZE_def)
  from fresh_load_misses [OF q _ a] h
  show "out \<noteq> []" and "set (map log_status out) = {''MISS''}" by simp_all
qed

theorem sentinel_never_matches_witness:
  "cache_geometry 8 [16, 2, 4] = Inr \<lparr>l1row_num = 0, l1tag = 1, l2row_num = 0, l2tag = 0\<rparr> \<and>
   unat (8 :: 16 word) < 8192 \<and>
   (1 :: 16 word) \<le> 8191 \<and>
   scan_blocks [\<lparr>tag = 0xFFFF\<rparr>, \<lparr>tag = 1\<rparr>] 1 0 = Some 1 \<and>
   [\<lparr>tag = 0xFFFF\<rparr>, \<lparr>tag = 1\<rparr>] ! 1 \<noteq> Block_default \<and>
   never_filled (demo_l1 [0xFFFF, 0xFFFF]) \<and>
   opcode (fetch \<lparr>pc = 0, regs_arr = init_regs, memory_arr = prog_three_loads\<rparr>) = 4 \<and>
   cache_step \<lparr>pc = 0, regs_arr = init_regs, memory_arr = prog_three_loads\<rparr>
       (demo_l1 [0xFFFF, 0xFFFF]) [16, 2, 4] =
     Inr (False, \<lparr>pc = 1, regs_arr = init_regs(2 := 0x8100), memory_arr = prog_three_loads\<rparr>,
          demo_l1 [0xFFFF, 0], [LogEntry ''L1'' ''MISS'' 0 0 0]) \<and>
   set (map log_status [LogEntry ''L1'' ''MISS'' 0 0 0]) = {''MISS''}"
proof -
  let ?g = "\<lparr>l1row_num = 0, l1tag = 1, l2row_num = 0, l2tag = 0\<rparr> :: geometry"
  let ?s0 = "\<lparr>pc = 0, regs_arr = init_regs, memory_arr = prog_three_loads\<rparr>"
  let ?s1 = "\<lparr>pc = 1, regs_arr = init_regs(2 := 0x8100), memory_arr = prog_three_loads\<rparr>"
  let ?bs = "[\<lparr>tag = 0xFFFF\<rparr>, \<lparr>tag = 1\<rparr>] :: Block list"
  have g: "cache_geometry 8 [16, 2, 4] = Inr ?g" by code_simp
  have a: "unat (8 :: 16 word) < 8192" by simp
  have sc: "scan_blocks ?bs 1 0 = Some 1" by code_simp
  have nf: "never_filled (demo_l1 [0xFFFF, 0xFFFF])" by code_simp
  have o: "opcode (fetch ?s0) = 4" by (simp add: three_loads_steps decode_three_loads)
  have q1: "cache_func 0 0 (demo_l1 [0xFFFF, 0xFFFF]) [16, 2, 4] False =
      Inr (demo_l1 [0xFFFF, 0], [LogEntry ''L1'' ''MISS'' 0 0 0])"
    by code_simp
  have cs: "cache_step ?s0 (demo_l1 [0xFFFF, 0xFFFF]) [16, 2, 4] =
      Inr (False, ?s1, demo_l1 [0xFFFF, 0], [LogEntry ''L1'' ''MISS'' 0 0 0])"
    unfolding cache_step_alt three_loads_steps fetch_index_three_loads
    by (simp add: decode_three_loads q1)
  note inst = sentinel_never_matches [of ?s0 "0x8100" 8 "[16, 2, 4]" ?g ?bs 1
      "demo_l1 [0xFFFF, 0xFFFF]" False ?s1 "demo_l1 [0xFFFF, 0]" "[LogEntry ''L1'' ''MISS'' 0 0 0]"]
  have r1: "(1 :: 16 word) \<le> 8191" "?bs ! 1 \<noteq> Block_default"
    using inst g a sc by simp_all
  have r2: "set (map log_status [LogEntry ''L1'' ''MISS'' 0 0 0]) = {''MISS''}"
    using inst cs nf o by simp
  show ?thesis using g a sc nf o cs r1 r2 by simp
qed

section \<open>The cache does not take part in the execution\<close>

subsection \<open>Memory changes only by stores\<close>

lemma sim_step_memory:
  "memory_arr (snd (sim_step s)) a =
     (if stores_to s a then regs_arr s (unat (bits7_9 (fetch s))) else memory_arr s a)"
  by (simp add: sim_step_def Let_def stores_to_def)

lemma e20_sim_memory_kept:
  "e20_sim fuel s = Some s' \<Longrightarrow> no_later_store fuel s a \<Longrightarrow> memory_arr s' a = memory_arr s a"
proof (induction fuel arbitrary: s)
  case 0
  then show ?case by simp
next
  case (Suc fuel)
  have ns: "\<not> stores_to s a" using Suc.prems(2) by (simp split: if_splits)
  then have m: "memory_arr (snd (sim_step s)) a = memory_arr s a" by (simp add: sim_step_memory)
  show ?case
  proof (cases "fst (sim_step s)")
    case True
    then have "s' = snd (sim_step s)" using Suc.prems(1) by (simp add: case_prod_beta)
    then show ?thesis using m by simp
  next
    case False
    then have "e20_sim fuel (snd (sim_step s)) = Some s'" "no_later_store fuel (snd (sim_step s)) a"
      using Suc.prems ns by (simp_all add: case_prod_beta)
    then show ?thesis using Suc.IH m by metis
  qed
qed

subsection \<open>Queries on rows that exist and are not empty\<close>

lemma row_lengths_facts:
  assumes "lvl < length (levels_vec c)"
  shows "length (rows_vec (levels_vec c ! lvl)) = length (row_lengths c ! lvl)"
    and "r < length (rows_vec (levels_vec c ! lvl)) \<Longrightarrow> length (row_blocks c lvl r) = row_lengths c ! lvl ! r"
  using assms by (simp_all add: row_lengths_def row_blocks_def)

lemma length_row_lengths [simp]: "length (row_lengths c) = length (levels_vec c)"
  by (simp add: row_lengths_def)

lemma cache_func_succeeds:
  assumes g: "cache_geometry address parts = Inr g" and ok: "shape_ok (row_lengths c) g"
  shows "\<exists>c' out. cache_func address index c parts sw = Inr (c', out)"
proof -
  have l: "levels_vec c \<noteq> []" using ok by (auto simp: shape_ok_def row_lengths_def)
  then have l0: "0 < length (levels_vec c)" by simp
  have r1: "unat (l1row_num g) < length (rows_vec (levels_vec c ! 0))"
    using ok row_lengths_facts(1) [OF l0] by (simp add: shape_ok_def)
  have n1: "row_blocks c 0 (unat (l1row_num g)) \<noteq> []"
    using ok row_lengths_facts(2) [OF l0 r1] by (auto simp: shape_ok_def)
  show ?thesis
  proof (cases "l2_probed c g sw")
    case False
    then show ?thesis unfolding cache_func_alt g using l r1 n1 by simp
  next
    case True
    then have len: "length (levels_vec c) = 2" by (simp add: l2_probed_def)
    then have l1: "1 < length (levels_vec c)" by simp
    have r2: "unat (l2row_num g) < length (rows_vec (levels_vec c ! 1))"
      using ok row_lengths_facts(1) [OF l1] len by (simp add: shape_ok_def)
    have n2: "row_blocks c 1 (unat (l2row_num g)) \<noteq> []"
      using ok row_lengths_facts(2) [OF l1 r2] len by (auto simp: shape_ok_def)
    show ?thesis unfolding cache_func_alt g using l r1 n1 r2 n2 True by simp
  qed
qed

lemma cache_step_succeeds:
  assumes "\<forall>address. \<exists>g. cache_geometry address parts = Inr g \<and> shape_ok (row_lengths c) g"
  shows "\<exists>c' out. cache_step s c parts = Inr (fst (sim_step s), snd (sim_step s), c', out) \<and>
           row_lengths c' = row_lengths c"
proof (cases "opcode (fetch s) = 4 \<or> opcode (fetch s) = 5")
  case False
  then show ?thesis by (simp add: cache_step_alt)
next
  case True
  from assms obtain g where "cache_geometry (mem_address s (fetch s)) parts = Inr g"
    and "shape_ok (row_lengths c) g" by blast
  from cache_func_succeeds [OF this, of "fetch_index s" "opcode (fetch s) = 5"]
  obtain c' out where q: "cache_func (mem_address s (fetch s)) (fetch_index s) c parts (opcode (fetch s) = 5) = Inr (c', out)"
    by blast
  have "row_lengths c' = row_lengths c" using cache_func_row_lengths(1) [OF q] .
  then show ?thesis using True q by (simp add: cache_step_alt)
qed

lemma run_valid_shape:
  assumes "\<forall>address. \<exists>g. cache_geometry address parts = Inr g \<and> shape_ok (row_lengths c) g"
  shows "map_option (map_sum id fst) (run_e20_simulator fuel s c parts printed) =
         map_option Inr (e20_sim fuel s)"
  using assms
proof (induction fuel arbitrary: s c printed)
  case 0
  then show ?case by simp
next
  case (Suc fuel)
  from cache_step_succeeds [OF Suc.prems, of s] obtain c' out where
    st: "cache_step s c parts = Inr (fst (sim_step s), snd (sim_step s), c', out)"
    and rl: "row_lengths c' = row_lengths c" by blast
  show ?case
  proof (cases "fst (sim_step s)")
    case True
    then show ?thesis using st by (simp add: case_prod_beta)
  next
    case False
    have "\<forall>address. \<exists>g. cache_geometry address parts = Inr g \<and> shape_ok (row_lengths c') g"
      using Suc.prems rl by simp
    from Suc.IH [OF this, of "snd (sim_step s)" "printed @ out"]
    show ?thesis using False st by (simp add: case_prod_beta)
  qed
qed

subsection \<open>Valid configurations\<close>

lemma uint_word16_of_int: "0 \<le> x \<Longrightarrow> x \<le> 65535 \<Longrightarrow> uint (word_of_int x :: 16 word) = x"
  by (simp add: uint_word_of_int_eq take_bit_int_eq_self)

lemma valid_level_bounds:
  assumes "valid_level sz a b"
  shows "1 \<le> a" "a \<le> 65535" "1 \<le> b" "b \<le> 65535" "0 < a * b" "a * b \<le> 65535"
    "1 \<le> sz div (a * b)" "sz div (a * b) \<le> 65535" "0 \<le> sz" "sz \<le> 65535"
proof -
  from assms have a: "1 \<le> a" and b: "1 \<le> b" and ab: "a * b \<le> sz" and sz: "sz \<le> 65535"
    by (simp_all add: valid_level_def)
  show "1 \<le> a" "1 \<le> b" "sz \<le> 65535" by fact+
  have p: "0 < a * b" using a b by simp
  show "0 < a * b" by fact
  show "a * b \<le> 65535" using ab sz by linarith
  have "a * 1 \<le> a * b" using a b by (intro mult_left_mono) simp_all
  then show "a \<le> 65535" using ab sz by simp
  have "1 * b \<le> a * b" using a b by (intro mult_right_mono) simp_all
  then show "b \<le> 65535" using ab sz by simp
  show "0 \<le> sz" using p ab by linarith
  have "(a * b) div (a * b) \<le> sz div (a * b)" using ab p by (intro zdiv_mono1) simp_all
  then show "1 \<le> sz div (a * b)" using a b by simp
  have d0: "0 \<le> sz div (a * b)" using p \<open>0 \<le> sz\<close> by (simp add: pos_imp_zdiv_nonneg_iff)
  have "sz div (a * b) * 1 \<le> sz div (a * b) * (a * b)"
    using d0 p by (intro mult_left_mono) simp_all
  moreover have "sz div (a * b) * (a * b) + sz mod (a * b) = sz" by (rule div_mult_mod_eq)
  moreover have "0 \<le> sz mod (a * b)" using p by simp
  ultimately have "sz div (a * b) \<le> sz" by linarith
  then show "sz div (a * b) \<le> 65535" using sz by linarith
qed

lemma level_geometry:
  assumes v: "valid_level sz a b"
  shows "\<exists>rows blockid r t.
           rows_u16 (word_of_int sz) (word_of_int a) (word_of_int b) = Inr rows \<and>
           div_u16 address (word_of_int b) = Inr blockid \<and>
           mod_u16 blockid rows = Inr r \<and> div_u16 blockid rows = Inr t \<and>
           unat r < nat (sz div (a * b))"
proof -
  note bd = valid_level_bounds [OF v]
  let ?rows = "word_of_int (sz div (a * b)) :: 16 word"
  have ua: "uint (word_of_int a :: 16 word) = a" using bd by (simp add: uint_word16_of_int)
  have ub: "uint (word_of_int b :: 16 word) = b" using bd by (simp add: uint_word16_of_int)
  have us: "uint (word_of_int sz :: 16 word) = sz" using bd by (simp add: uint_word16_of_int)
  have ur: "uint ?rows = sz div (a * b)" using bd by (simp add: uint_word16_of_int)
  have lt: "a * b < 2 ^ 31" using bd(6) by simp
  have rows: "rows_u16 (word_of_int sz) (word_of_int a) (word_of_int b) = Inr ?rows"
    using bd(1,3) lt unfolding rows_u16_def Let_def ua ub us by simp
  have bn: "(word_of_int b :: 16 word) \<noteq> 0"
  proof
    assume "(word_of_int b :: 16 word) = 0"
    then have "uint (word_of_int b :: 16 word) = 0" by simp
    then show False using ub bd(3) by simp
  qed
  have rn: "?rows \<noteq> 0"
  proof
    assume "?rows = 0"
    then have "uint ?rows = 0" by simp
    then show False using ur bd(7) by simp
  qed
  have un: "unat ?rows = nat (sz div (a * b))"
    using ur by (simp add: unat_eq_nat_uint)
  have "0 < unat ?rows" using un bd(7) by simp
  then have "unat ((address div word_of_int b) mod ?rows) < unat ?rows"
    by (simp add: unat_mod)
  moreover note un
  ultimately show ?thesis
    using rows bn rn by (simp add: div_u16_def mod_u16_def)
qed

lemma geometry_valid_3:
  assumes len: "length parts = 3" and v: "valid_level (parts ! 0) (parts ! 1) (parts ! 2)"
  shows "\<exists>g. cache_geometry address parts = Inr g \<and>
           unat (l1row_num g) < nat (parts ! 0 div (parts ! 1 * parts ! 2))"
proof -
  from level_geometry [OF v, of address] obtain rows blockid r t where
    "rows_u16 (word_of_int (parts ! 0)) (word_of_int (parts ! 1)) (word_of_int (parts ! 2)) = Inr rows"
    "div_u16 address (word_of_int (parts ! 2)) = Inr blockid"
    "mod_u16 blockid rows = Inr r" "div_u16 blockid rows = Inr t"
    "unat r < nat (parts ! 0 div (parts ! 1 * parts ! 2))"
    by blast
  then show ?thesis
    unfolding cache_geometry_def Let_def len by simp
qed

lemma geometry_valid_6:
  assumes len: "length parts = 6" and v1: "valid_level (parts ! 0) (parts ! 1) (parts ! 2)"
    and v2: "valid_level (parts ! 3) (parts ! 4) (parts ! 5)"
  shows "\<exists>g. cache_geometry address parts = Inr g \<and>
           unat (l1row_num g) < nat (parts ! 0 div (parts ! 1 * parts ! 2)) \<and>
           unat (l2row_num g) < nat (parts ! 3 div (parts ! 4 * parts ! 5))"
proof -
  from level_geometry [OF v1, of address] obtain rows1 blockid1 r1 t1 where
    "rows_u16 (word_of_int (parts ! 0)) (word_of_int (parts ! 1)) (word_of_int (parts ! 2)) = Inr rows1"
    "div_u16 address (word_of_int (parts ! 2)) = Inr blockid1"
    "mod_u16 blockid1 rows1 = Inr r1" "div_u16 blockid1 rows1 = Inr t1"
    "unat r1 < nat (parts ! 0 div (parts ! 1 * parts ! 2))"
    by blast
  moreover from level_geometry [OF v2, of address] obtain rows2 blockid2 r2 t2 where
    "rows_u16 (word_of_int (parts ! 3)) (word_of_int (parts ! 4)) (word_of_int (parts ! 5)) = Inr rows2"
    "div_u16 address (word_of_int (parts ! 5)) = Inr blockid2"
    "mod_u16 blockid2 rows2 = Inr r2" "div_u16 blockid2 rows2 = Inr t2"
    "unat r2 < nat (parts ! 3 div (parts ! 4 * parts ! 5))"
    by blast
  ultimately show ?thesis
    unfolding cache_geometry_def Let_def len by simp
qed

lemma level_made:
  assumes "0 \<le> sz" "sz < 2 ^ 31" "0 < a" "0 < b" "a * b < 2 ^ 31"
  shows "int_mul a b = Inr (a * b)"
    and "int_div sz (a * b) = Inr (sz div (a * b))"
    and "Level_ctor sz (sz div (a * b)) a b =
      Inr \<lparr>rows_vec = replicate (nat (sz div (a * b)))
                          \<lparr>blocks_vec = replicate (nat a) Block_default, associativity = a\<rparr>,
           blocksize = b\<rparr>"
proof -
  have p: "0 < a * b" using assms by simp
  have lo: "- (2 ^ 31) \<le> a * b"
    by (rule order_trans [OF _ less_imp_le [OF p]]) simp
  show "int_mul a b = Inr (a * b)" using assms lo by (simp add: int_mul_def)
  show "int_div sz (a * b) = Inr (sz div (a * b))" using assms p by (simp add: int_div_def sdiv_nonneg)
  show "Level_ctor sz (sz div (a * b)) a b =
      Inr \<lparr>rows_vec = replicate (nat (sz div (a * b)))
                          \<lparr>blocks_vec = replicate (nat a) Block_default, associativity = a\<rparr>,
           blocksize = b\<rparr>"
    using assms by (simp add: Level_ctor_def)
qed

lemma main_cache_one_level:
  assumes len: "length parts = 3"
    and h: "0 \<le> parts ! 0" "parts ! 0 < 2 ^ 31" "0 < parts ! 1" "0 < parts ! 2" "parts ! 1 * parts ! 2 < 2 ^ 31"
  shows "main_cache fuel parts mem =
      run_e20_simulator fuel \<lparr>pc = 0, regs_arr = init_regs, memory_arr = mem\<rparr>
        \<lparr>levels_vec =
           [\<lparr>rows_vec = replicate (nat (parts ! 0 div (parts ! 1 * parts ! 2)))
                          \<lparr>blocks_vec = replicate (nat (parts ! 1)) Block_default, associativity = parts ! 1\<rparr>,
             blocksize = parts ! 2\<rparr>]\<rparr>
        parts
        [CacheConfig ''L1'' (parts ! 0) (parts ! 1) (parts ! 2) (parts ! 0 div (parts ! 1 * parts ! 2))]"
  unfolding main_cache_def len level_made [OF h] bind_err_simps print_cache_config_def by simp

lemma main_cache_two_levels:
  assumes len: "length parts = 6"
    and h1: "0 \<le> parts ! 0" "parts ! 0 < 2 ^ 31" "0 < parts ! 1" "0 < parts ! 2" "parts ! 1 * parts ! 2 < 2 ^ 31"
    and h2: "0 \<le> parts ! 3" "parts ! 3 < 2 ^ 31" "0 < parts ! 4" "0 < parts ! 5" "parts ! 4 * parts ! 5 < 2 ^ 31"
  shows "main_cache fuel parts mem =
      run_e20_simulator fuel \<lparr>pc = 0, regs_arr = init_regs, memory_arr = mem\<rparr>
        \<lparr>levels_vec =
           [\<lparr>rows_vec = replicate (nat (parts ! 0 div (parts ! 1 * parts ! 2)))
                          \<lparr>blocks_vec = replicate (nat (parts ! 1)) Block_default, associativity = parts ! 1\<rparr>,
             blocksize = parts ! 2\<rparr>,
            \<lparr>rows_vec = replicate (nat (parts ! 3 div (parts ! 4 * parts ! 5)))
                          \<lparr>blocks_vec = replicate (nat (parts ! 4)) Block_default, associativity = parts ! 4\<rparr>,
             blocksize = parts ! 5\<rparr>]\<rparr>
        parts
        [CacheConfig ''L1'' (parts ! 0) (parts ! 1) (parts ! 2) (parts ! 0 div (parts ! 1 * parts ! 2)),
         CacheConfig ''L2'' (parts ! 3) (parts ! 4) (parts ! 5) (parts ! 3 div (parts ! 4 * parts ! 5))]"
  unfolding main_cache_def len level_made [OF h1] level_made [OF h2] bind_err_simps print_cache_config_def
  by simp

lemma main_cache_valid:
  assumes v: "valid_config parts"
  shows "map_option (map_sum id fst) (main_cache fuel parts mem) =
         map_option Inr (e20_sim fuel \<lparr>pc = 0, regs_arr = init_regs, memory_arr = mem\<rparr>)"
proof -
  consider (three) "length parts = 3" | (six) "length parts = 6"
    using v by (auto simp: valid_config_def split: if_splits)
  then show ?thesis
  proof cases
    case three
    then have v1: "valid_level (parts ! 0) (parts ! 1) (parts ! 2)"
      using v by (simp add: valid_config_def)
    note bd = valid_level_bounds [OF v1]
    let ?c = "\<lparr>levels_vec =
           [\<lparr>rows_vec = replicate (nat (parts ! 0 div (parts ! 1 * parts ! 2)))
                          \<lparr>blocks_vec = replicate (nat (parts ! 1)) Block_default, associativity = parts ! 1\<rparr>,
             blocksize = parts ! 2\<rparr>]\<rparr>"
    have h: "0 \<le> parts ! 0" "parts ! 0 < 2 ^ 31" "0 < parts ! 1" "0 < parts ! 2" "parts ! 1 * parts ! 2 < 2 ^ 31"
      using bd by simp_all
    have rl: "row_lengths ?c = [replicate (nat (parts ! 0 div (parts ! 1 * parts ! 2))) (nat (parts ! 1))]"
      by (simp add: row_lengths_def)
    have ok: "\<forall>address. \<exists>g. cache_geometry address parts = Inr g \<and> shape_ok (row_lengths ?c) g"
    proof
      fix address
      from geometry_valid_3 [OF three v1, of address] obtain g where
        g: "cache_geometry address parts = Inr g"
        and r: "unat (l1row_num g) < nat (parts ! 0 div (parts ! 1 * parts ! 2))" by blast
      have "shape_ok (row_lengths ?c) g"
        unfolding rl shape_ok_def using r bd(1) by simp
      with g show "\<exists>g. cache_geometry address parts = Inr g \<and> shape_ok (row_lengths ?c) g" by blast
    qed
    show ?thesis
      unfolding main_cache_one_level [OF three h] by (rule run_valid_shape [OF ok])
  next
    case six
    then have v1: "valid_level (parts ! 0) (parts ! 1) (parts ! 2)"
      and v2: "valid_level (parts ! 3) (parts ! 4) (parts ! 5)"
      using v by (simp_all add: valid_config_def)
    note bd1 = valid_level_bounds [OF v1] and bd2 = valid_level_bounds [OF v2]
    let ?c = "\<lparr>levels_vec =
           [\<lparr>rows_vec = replicate (nat (parts ! 0 div (parts ! 1 * parts ! 2)))
                          \<lparr>blocks_vec = replicate (nat (parts ! 1)) Block_default, associativity = parts ! 1\<rparr>,
             blocksize = parts ! 2\<rparr>,
            \<lparr>rows_vec = replicate (nat (parts ! 3 div (parts ! 4 * parts ! 5)))
                          \<lparr>blocks_vec = replicate (nat (parts ! 4)) Block_default, associativity = parts ! 4\<rparr>,
             blocksize = parts ! 5\<rparr>]\<rparr>"
    have h1: "0 \<le> parts ! 0" "parts ! 0 < 2 ^ 31" "0 < parts ! 1" "0 < parts ! 2" "parts ! 1 * parts ! 2 < 2 ^ 31"
      using bd1 by simp_all
    have h2: "0 \<le> parts ! 3" "parts ! 3 < 2 ^ 31" "0 < parts ! 4" "0 < parts ! 5" "parts ! 4 * parts ! 5 < 2 ^ 31"
      using bd2 by simp_all
    have rl: "row_lengths ?c = [replicate (nat (parts ! 0 div (parts ! 1 * parts ! 2))) (nat (parts ! 1)),
                                replicate (nat (parts ! 3 div (parts ! 4 * parts ! 5))) (nat (parts ! 4))]"
      by (simp add: row_lengths_def)
    have ok: "\<forall>address. \<exists>g. cache_geometry address parts = Inr g \<and> shape_ok (row_lengths ?c) g"
    proof
      fix address
      from geometry_valid_6 [OF six v1 v2, of address] obtain g where
        g: "cache_geometry address parts = Inr g"
        and r1: "unat (l1row_num g) < nat (parts ! 0 div (parts ! 1 * parts ! 2))"
        and r2: "unat (l2row_num g) < nat (parts ! 3 div (parts ! 4 * parts ! 5))" by blast
      have "shape_ok (row_lengths ?c) g"
        unfolding rl shape_ok_def using r1 r2 bd1(1) bd2(1) by simp
      with g show "\<exists>g. cache_geometry address parts = Inr g \<and> shape_ok (row_lengths ?c) g" by blast
    qed
    show ?thesis
      unfolding main_cache_two_levels [OF six h1 h2] by (rule run_valid_shape [OF ok])
  qed
qed

lemma store_persists:
  assumes st: "stores_to s a" and cs: "cache_step s c parts = Inr (h, s1, c1, o1)"
    and run: "run_e20_simulator fuel s1 c1 parts printed = Some (Inr (s2, c2, out2))"
    and nl: "no_later_store fuel s1 a"
  shows "memory_arr s2 a = regs_arr s (unat (bits7_9 (fetch s)))"
proof -
  have "s1 = snd (sim_step s)" using cache_step_arch [OF cs] by simp
  then have "memory_arr s1 a = regs_arr s (unat (bits7_9 (fetch s)))"
    using st by (simp add: sim_step_memory)
  moreover have "memory_arr s2 a = memory_arr s1 a"
    using e20_sim_memory_kept [OF run_e20_simulator_arch [OF run] nl] .
  ultimately show ?thesis by simp
qed


subsection \<open>A run with a store\<close>

lemma sim_step_addi:
  "opcode (fetch s) = 1 \<Longrightarrow>
   sim_step s = (False, s\<lparr>regs_arr := ((regs_arr s)(unat (bits7_9 (fetch s)) :=
                              regs_arr s (unat (bits10_12 (fetch s))) + bits0_6 (fetch s)))(0 := 0),
                          pc := pc s + 1\<rparr>)"
  by (simp add: sim_step_def Let_def)

lemma decode_store_load:
  "opcode 0x2185 = 1" "bits10_12 0x2185 = 0" "bits7_9 0x2185 = 3" "bits0_6 0x2185 = 5"
  "opcode 0xA189 = 5" "bits10_12 0xA189 = 0" "bits7_9 0xA189 = 3" "bits0_6 0xA189 = 9"
  "opcode 0x8109 = 4" "bits10_12 0x8109 = 0" "bits7_9 0x8109 = 2" "bits0_6 0x8109 = 9"
  by (simp_all add: opcode_def bits10_12_def bits7_9_def bits0_6_def sign_extend7_func_def)

lemma store_load_steps:
  "sim_step \<lparr>pc = 0, regs_arr = init_regs, memory_arr = prog_store_load\<rparr> =
     (False, \<lparr>pc = 1, regs_arr = init_regs(3 := 5), memory_arr = prog_store_load\<rparr>)"
  "sim_step \<lparr>pc = 1, regs_arr = init_regs(3 := 5), memory_arr = prog_store_load\<rparr> =
     (False, \<lparr>pc = 2, regs_arr = init_regs(3 := 5), memory_arr = prog_store_load(9 := 5)\<rparr>)"
  "sim_step \<lparr>pc = 2, regs_arr = init_regs(3 := 5), memory_arr = prog_store_load(9 := 5)\<rparr> =
     (False, \<lparr>pc = 3, regs_arr = init_regs(3 := 5, 2 := 5), memory_arr = prog_store_load(9 := 5)\<rparr>)"
  "sim_step \<lparr>pc = 3, regs_arr = init_regs(3 := 5, 2 := 5), memory_arr = prog_store_load(9 := 5)\<rparr> =
     (True, \<lparr>pc = 3, regs_arr = init_regs(3 := 5, 2 := 5), memory_arr = prog_store_load(9 := 5)\<rparr>)"
  "fetch \<lparr>pc = 0, regs_arr = init_regs, memory_arr = prog_store_load\<rparr> = 0x2185"
  "fetch \<lparr>pc = 1, regs_arr = init_regs(3 := 5), memory_arr = prog_store_load\<rparr> = 0xA189"
  "fetch \<lparr>pc = 2, regs_arr = init_regs(3 := 5), memory_arr = prog_store_load(9 := 5)\<rparr> = 0x8109"
  "fetch \<lparr>pc = 3, regs_arr = init_regs(3 := 5, 2 := 5), memory_arr = prog_store_load(9 := 5)\<rparr> = 0x4003"
  "mem_address \<lparr>pc = 1, regs_arr = init_regs(3 := 5), memory_arr = prog_store_load\<rparr> 0xA189 = 9"
  "mem_address \<lparr>pc = 2, regs_arr = init_regs(3 := 5), memory_arr = prog_store_load(9 := 5)\<rparr> 0x8109 = 9"
proof -
  let ?t0 = "\<lparr>pc = 0, regs_arr = init_regs, memory_arr = prog_store_load\<rparr>"
  let ?t1 = "\<lparr>pc = 1, regs_arr = init_regs(3 := 5), memory_arr = prog_store_load\<rparr>"
  let ?t2 = "\<lparr>pc = 2, regs_arr = init_regs(3 := 5), memory_arr = prog_store_load(9 := 5)\<rparr>"
  let ?t3 = "\<lparr>pc = 3, regs_arr = init_regs(3 := 5, 2 := 5), memory_arr = prog_store_load(9 := 5)\<rparr>"
  show f: "fetch ?t0 = 0x2185" "fetch ?t1 = 0xA189" "fetch ?t2 = 0x8109" "fetch ?t3 = 0x4003"
    by (simp_all add: fetch_def fetch_index_def MEM_SIZE_def prog_store_load_def)
  show a: "mem_address ?t1 0xA189 = 9" "mem_address ?t2 0x8109 = 9"
    by (simp_all add: mem_address_def decode_store_load MEM_SIZE_def init_regs_def)
  have o: "opcode (fetch ?t0) = 1" "opcode (fetch ?t1) = 5" "opcode (fetch ?t2) = 4" "opcode (fetch ?t3) = 2"
    unfolding f by (simp_all add: decode_store_load decode_three_loads)
  have z: "(init_regs(3 := 5)) 0 = 0" "(init_regs(3 := 5, 2 := 5)) 0 = 0" "init_regs 0 = 0"
    by (simp_all add: init_regs_def)
  show "sim_step ?t0 = (False, ?t1)"
    unfolding sim_step_addi [OF o(1)] f by (simp add: decode_store_load z fun_upd_idem)
  show "sim_step ?t1 = (False, ?t2)"
    unfolding sim_step_sw [OF o(2)] f a by (simp add: decode_store_load)
  show "sim_step ?t2 = (False, ?t3)"
    unfolding sim_step_lw [OF o(3)] f a by (simp add: decode_store_load z fun_upd_idem)
  show "sim_step ?t3 = (True, ?t3)"
    unfolding sim_step_j [OF o(4)] f by (simp add: decode_three_loads)
qed

subsection \<open>The two programs compared\<close>

text \<open>
  C5, as stated for every cache configuration, fails: nothing validates the configuration,
  and with \<^verbatim>\<open>--cache 8,2,8\<close> \<^verbatim>\<open>cache_func\<close> computes 8 / (2 * 8) = 0 rows and then a
  remainder modulo 0 at the first \<^verbatim>\<open>lw\<close>. The run with the cache ends there, while
  e20\_sim.cpp runs the same program to its halt.
\<close>

theorem degenerate_config_aborts:
  "main_cache 4 [8, 2, 8] prog_three_loads = Some (Inl DivByZero) \<and>
   e20_sim 4 \<lparr>pc = 0, regs_arr = init_regs, memory_arr = prog_three_loads\<rparr> =
     Some \<lparr>pc = 3, regs_arr = init_regs(2 := 0x8100), memory_arr = prog_three_loads\<rparr>"
proof -
  let ?p = "[8, 2, 8] :: int list"
  let ?c = "\<lparr>levels_vec = [\<lparr>rows_vec = [], blocksize = 8\<rparr>]\<rparr> :: Cache"
  let ?s0 = "\<lparr>pc = 0, regs_arr = init_regs, memory_arr = prog_three_loads\<rparr>"
  have k: "bind_err (int_mul 2 8) (\<lambda>p. bind_err (int_div 8 p) (\<lambda>l1_rows.
          bind_err (Level_ctor 8 l1_rows 2 8) (\<lambda>l1. Inr (l1_rows, l1)))) =
        Inr (0, \<lparr>rows_vec = [], blocksize = 8\<rparr>)"
    by code_simp
  have m: "main_cache 4 ?p prog_three_loads =
     run_e20_simulator 4 ?s0 ?c ?p [CacheConfig ''L1'' 8 2 8 0]"
    using k by (simp add: main_cache_def print_cache_config_def)
  have q: "cache_func 0 0 ?c ?p False = Inl DivByZero"
    by code_simp
  have cs: "cache_step ?s0 ?c ?p = Inl DivByZero"
    unfolding cache_step_alt three_loads_steps fetch_index_three_loads
    by (simp add: decode_three_loads q)
  have four: "(4::nat) = Suc (Suc (Suc (Suc 0)))" by simp
  have r: "main_cache 4 ?p prog_three_loads = Some (Inl DivByZero)"
    by (subst m, subst four, simp add: cs)
  show ?thesis using r e20_sim_three_loads by blast
qed

text \<open>
  C5, amended. Whenever \<^verbatim>\<open>run_e20_simulator\<close> reaches the halt, the loop of e20\_sim.cpp
  reaches it after the same number of iterations with the same program counter, registers
  and memory; conversely, when e20\_sim.cpp halts, \<^verbatim>\<open>run_e20_simulator\<close> halts in the same
  machine unless a cache query failed on the way. For a valid configuration (three or six
  numbers, each level with associativity and block size at least 1 and associativity times
  block size at most the size, the size at most 65535) no query fails, and \<^verbatim>\<open>main\<close> of
  e20\_sim\_cache.cpp halts exactly when e20\_sim.cpp does, in the same machine. The value a
  \<^verbatim>\<open>sw\<close> wrote to an address is in the final memory if no later \<^verbatim>\<open>sw\<close> goes to that
  address.
\<close>

theorem cache_is_observer:
  "(run_e20_simulator fuel s c parts printed = Some (Inr (s', c', out)) \<longrightarrow> e20_sim fuel s = Some s') \<and>
   (e20_sim fuel s = Some s' \<longrightarrow>
      (\<exists>e. run_e20_simulator fuel s c parts printed = Some (Inl e)) \<or>
      (\<exists>c'' out'. run_e20_simulator fuel s c parts printed = Some (Inr (s', c'', out')))) \<and>
   (valid_config parts \<longrightarrow>
      map_option (map_sum id fst) (main_cache fuel parts mem) =
      map_option Inr (e20_sim fuel \<lparr>pc = 0, regs_arr = init_regs, memory_arr = mem\<rparr>)) \<and>
   (stores_to s a \<and> cache_step s c parts = Inr (h, s1, c1, o1) \<and>
    run_e20_simulator fuel1 s1 c1 parts printed1 = Some (Inr (s2, c2, out2)) \<and> no_later_store fuel1 s1 a \<longrightarrow>
      memory_arr s2 a = regs_arr s (unat (bits7_9 (fetch s))))"
  using run_e20_simulator_arch [of fuel s c parts printed s' c' out]
    run_e20_simulator_total [of fuel s s' c parts printed]
    main_cache_valid [of parts fuel mem]
    store_persists [of s a c parts h s1 c1 o1 fuel1 printed1 s2 c2 out2]
  by blast

theorem cache_is_observer_witness:
  "valid_config [16, 2, 4] \<and>
   run_e20_simulator 4 \<lparr>pc = 0, regs_arr = init_regs, memory_arr = prog_store_load\<rparr>
       (demo_l1 [0xFFFF, 0xFFFF]) [16, 2, 4] [] =
     Some (Inr (\<lparr>pc = 3, regs_arr = init_regs(3 := 5, 2 := 5), memory_arr = prog_store_load(9 := 5)\<rparr>,
                demo_l1 [0xFFFF, 1], [LogEntry ''L1'' ''SW'' 1 9 0, LogEntry ''L1'' ''HIT'' 2 9 0])) \<and>
   e20_sim 4 \<lparr>pc = 0, regs_arr = init_regs, memory_arr = prog_store_load\<rparr> =
     Some \<lparr>pc = 3, regs_arr = init_regs(3 := 5, 2 := 5), memory_arr = prog_store_load(9 := 5)\<rparr> \<and>
   map_option (map_sum id fst) (main_cache 4 [16, 2, 4] prog_store_load) =
     Some (Inr \<lparr>pc = 3, regs_arr = init_regs(3 := 5, 2 := 5), memory_arr = prog_store_load(9 := 5)\<rparr>) \<and>
   stores_to \<lparr>pc = 1, regs_arr = init_regs(3 := 5), memory_arr = prog_store_load\<rparr> 9 \<and>
   no_later_store 2 \<lparr>pc = 2, regs_arr = init_regs(3 := 5), memory_arr = prog_store_load(9 := 5)\<rparr> 9 \<and>
   memory_arr \<lparr>pc = 3, regs_arr = init_regs(3 := 5, 2 := 5), memory_arr = prog_store_load(9 := 5)\<rparr> 9 = 5"
proof -
  let ?p = "[16, 2, 4] :: int list"
  let ?t0 = "\<lparr>pc = 0, regs_arr = init_regs, memory_arr = prog_store_load\<rparr>"
  let ?t1 = "\<lparr>pc = 1, regs_arr = init_regs(3 := 5), memory_arr = prog_store_load\<rparr>"
  let ?t2 = "\<lparr>pc = 2, regs_arr = init_regs(3 := 5), memory_arr = prog_store_load(9 := 5)\<rparr>"
  let ?t3 = "\<lparr>pc = 3, regs_arr = init_regs(3 := 5, 2 := 5), memory_arr = prog_store_load(9 := 5)\<rparr>"
  let ?c0 = "demo_l1 [0xFFFF, 0xFFFF]"
  let ?c1 = "demo_l1 [0xFFFF, 1]"
  let ?sw = "LogEntry ''L1'' ''SW'' 1 9 0"
  let ?hit = "LogEntry ''L1'' ''HIT'' 2 9 0"
  have v: "valid_config ?p" by code_simp
  have q1: "cache_func 9 1 ?c0 ?p True = Inr (?c1, [?sw])" by code_simp
  have q2: "cache_func 9 2 ?c1 ?p False = Inr (?c1, [?hit])" by code_simp
  have fi: "fetch_index ?t1 = 1" "fetch_index ?t2 = 2"
    by (simp_all add: fetch_index_def MEM_SIZE_def)
  have cs0: "cache_step ?t0 ?c0 ?p = Inr (False, ?t1, ?c0, [])"
    unfolding cache_step_alt store_load_steps by (simp add: decode_store_load)
  have cs1: "cache_step ?t1 ?c0 ?p = Inr (False, ?t2, ?c1, [?sw])"
    unfolding cache_step_alt store_load_steps fi by (simp add: decode_store_load q1)
  have cs2: "cache_step ?t2 ?c1 ?p = Inr (False, ?t3, ?c1, [?hit])"
    unfolding cache_step_alt store_load_steps fi by (simp add: decode_store_load q2)
  have cs3: "cache_step ?t3 ?c1 ?p = Inr (True, ?t3, ?c1, [])"
    unfolding cache_step_alt store_load_steps by (simp add: decode_three_loads)
  have four: "(4::nat) = Suc (Suc (Suc (Suc 0)))" and two: "(2::nat) = Suc (Suc 0)" by simp_all
  have run4: "run_e20_simulator 4 ?t0 ?c0 ?p [] = Some (Inr (?t3, ?c1, [?sw, ?hit]))"
    by (subst four) (simp add: cs0 cs1 cs2 cs3)
  have run2: "run_e20_simulator 2 ?t2 ?c1 ?p [] = Some (Inr (?t3, ?c1, [?hit]))"
    by (subst two) (simp add: cs2 cs3)
  have st: "stores_to ?t1 9"
    by (simp add: stores_to_def store_load_steps decode_store_load)
  have ns: "\<not> stores_to ?t2 9" "\<not> stores_to ?t3 9"
    by (simp_all add: stores_to_def store_load_steps decode_store_load decode_three_loads)
  have nl: "no_later_store 2 ?t2 9"
    by (subst two) (simp add: ns store_load_steps)
  note i1 = cache_is_observer [of 4 ?t0 ?c0 ?p "[]" ?t3 ?c1 "[?sw, ?hit]" prog_store_load
      9 False ?t1 ?c0 "[]" 0 "[]" ?t3 ?c1 "[]"]
  note i2 = cache_is_observer [of 4 ?t1 ?c0 ?p "[]" ?t3 ?c1 "[]" prog_store_load
      9 False ?t2 ?c1 "[?sw]" 2 "[]" ?t3 ?c1 "[?hit]"]
  have e: "e20_sim 4 ?t0 = Some ?t3"
    using i1 [THEN conjunct1] run4 by simp
  have m: "map_option (map_sum id fst) (main_cache 4 ?p prog_store_load) = Some (Inr ?t3)"
    using i1 [THEN conjunct2, THEN conjunct2, THEN conjunct1] v e by simp
  have bits: "unat (bits7_9 (fetch ?t1)) = 3"
    by (simp add: store_load_steps decode_store_load)
  have "memory_arr ?t3 9 = regs_arr ?t1 (unat (bits7_9 (fetch ?t1)))"
    using i2 [THEN conjunct2, THEN conjunct2, THEN conjunct2] st cs1 run2 nl by blast
  then have mem: "memory_arr ?t3 9 = 5" unfolding bits by simp
  show ?thesis using v run4 e m st nl mem by blast
qed

end
